theory Spec2Isabelle
  imports Complex_Main "HOL-Library.Multiset"
begin

section \<open>JavaScript values\<close>

text \<open>
  The dashboard script exists in two revisions: \<^verbatim>\<open>src/Code.js\<close> and
  \<^verbatim>\<open>src/unnamed/part_000\<close>. Both define \<^verbatim>\<open>parseDateValue\<close>,
  \<^verbatim>\<open>processAndSortData\<close> and \<^verbatim>\<open>processSpecialSatsangList\<close>. A definition
  without suffix embeds the function of \<^verbatim>\<open>Code.js\<close>; the suffix \<open>_part000\<close>
  marks the function of the same name in \<^verbatim>\<open>unnamed/part_000\<close>. Code that is the
  same in both files is embedded once.

  A JavaScript number is \<open>NaN\<close>, an infinity, or a finite value; finite values are exact
  rationals (the rounding of doubles is not modelled). A \<^verbatim>\<open>Date\<close> is its time value
  in milliseconds, \<open>None\<close> for an invalid date.
\<close>

datatype jsnum = NaN | Fin rat | PosInf | NegInf

datatype jsval =
    VUndefined
  | VNull
  | VBool bool
  | VNum jsnum
  | VStr string
  | VDate "int option"

datatype exn = ReferenceError | TypeError | PlatformError

fun jsNeg :: "jsnum \<Rightarrow> jsnum" where
  "jsNeg NaN = NaN"
| "jsNeg (Fin a) = Fin (- a)"
| "jsNeg PosInf = NegInf"
| "jsNeg NegInf = PosInf"

fun jsAdd :: "jsnum \<Rightarrow> jsnum \<Rightarrow> jsnum" where
  "jsAdd NaN _ = NaN"
| "jsAdd _ NaN = NaN"
| "jsAdd (Fin a) (Fin b) = Fin (a + b)"
| "jsAdd PosInf NegInf = NaN"
| "jsAdd NegInf PosInf = NaN"
| "jsAdd PosInf _ = PosInf"
| "jsAdd _ PosInf = PosInf"
| "jsAdd NegInf _ = NegInf"
| "jsAdd _ NegInf = NegInf"

definition jsSub :: "jsnum \<Rightarrow> jsnum \<Rightarrow> jsnum" where
  "jsSub a b = jsAdd a (jsNeg b)"

fun jsSign :: "jsnum \<Rightarrow> int" where
  "jsSign NaN = 0"
| "jsSign (Fin a) = (if a < 0 then - 1 else if a = 0 then 0 else 1)"
| "jsSign PosInf = 1"
| "jsSign NegInf = - 1"

fun jsMul :: "jsnum \<Rightarrow> jsnum \<Rightarrow> jsnum" where
  "jsMul NaN _ = NaN"
| "jsMul _ NaN = NaN"
| "jsMul (Fin a) (Fin b) = Fin (a * b)"
| "jsMul a b =
     (if jsSign a * jsSign b = 0 then NaN
      else if jsSign a * jsSign b > 0 then PosInf else NegInf)"

text \<open>\<^verbatim>\<open>a < b\<close> on numbers: false as soon as one side is \<open>NaN\<close>.\<close>

fun jsLess :: "jsnum \<Rightarrow> jsnum \<Rightarrow> bool" where
  "jsLess NaN _ = False"
| "jsLess _ NaN = False"
| "jsLess (Fin a) (Fin b) = (a < b)"
| "jsLess NegInf NegInf = False"
| "jsLess NegInf _ = True"
| "jsLess _ NegInf = False"
| "jsLess PosInf _ = False"
| "jsLess _ PosInf = True"

fun jsFloor :: "jsnum \<Rightarrow> jsnum" where
  "jsFloor (Fin a) = Fin (of_int \<lfloor>a\<rfloor>)"
| "jsFloor n = n"

text \<open>\<^verbatim>\<open>a !== b\<close> on numbers: \<open>NaN\<close> differs from everything, itself included.\<close>

definition jsStrictNe :: "jsnum \<Rightarrow> jsnum \<Rightarrow> bool" where
  "jsStrictNe a b = (a = NaN \<or> b = NaN \<or> a \<noteq> b)"

definition isNaN :: "jsnum \<Rightarrow> bool" where
  "isNaN n = (n = NaN)"

text \<open>
  \<^verbatim>\<open>new Date(ms)\<close>: the time value is clipped (ECMAScript TimeClip): not finite or
  beyond 8.64e15 milliseconds gives an invalid date, otherwise the value is truncated
  towards zero.
\<close>

definition timeClip :: "jsnum \<Rightarrow> int option" where
  "timeClip n =
     (case n of
        Fin a \<Rightarrow>
          (if \<bar>a\<bar> > 8640000000000000 then None
           else Some (if a < 0 then \<lceil>a\<rceil> else \<lfloor>a\<rfloor>))
      | _ \<Rightarrow> None)"

text \<open>\<^verbatim>\<open>d.getTime()\<close> as a number.\<close>

definition getTime :: "int option \<Rightarrow> jsnum" where
  "getTime d = (case d of None \<Rightarrow> NaN | Some t \<Rightarrow> Fin (of_int t))"

section \<open>Strings\<close>

text \<open>
  A string is a list of 8-bit characters. It stands for a JavaScript string; apart from
  white space, digits and separators nothing below looks inside a character.

  \<^verbatim>\<open>String.prototype.trim\<close> removes white space and line terminators at both ends;
  among 8-bit characters these are TAB, LF, VT, FF, CR, SPACE and NBSP.
\<close>

definition isWhiteSpace :: "char \<Rightarrow> bool" where
  "isWhiteSpace c = ((of_char c :: int) \<in> {9, 10, 11, 12, 13, 32, 160})"

definition trim :: "string \<Rightarrow> string" where
  "trim s = rev (dropWhile isWhiteSpace (rev (dropWhile isWhiteSpace s)))"

text \<open>\<^verbatim>\<open>s.split(c)\<close> for a one-character separator.\<close>

fun splitOn :: "char \<Rightarrow> string \<Rightarrow> string list" where
  "splitOn c [] = [[]]"
| "splitOn c (x # xs) =
     (if x = c then [] # splitOn c xs
      else (case splitOn c xs of
              [] \<Rightarrow> [[x]]
            | p # ps \<Rightarrow> (x # p) # ps))"

text \<open>
  The decimal digits of a non-negative integer, as \<^verbatim>\<open>String(n)\<close> prints an index.
  (Integers rather than naturals, whose division the kernel evaluates in unary.)
\<close>

definition digitChar :: "int \<Rightarrow> char" where
  "digitChar n = char_of (48 + n)"

function showInt :: "int \<Rightarrow> string" where
  "showInt n = (if n < 10 then [digitChar n] else showInt (n div 10) @ [digitChar (n mod 10)])"
  by pat_completeness auto
termination
  by (relation "measure nat") auto

declare showInt.simps [simp del]

definition showNat :: "nat \<Rightarrow> string" where
  "showNat n = showInt (int n)"

section \<open>The platform\<close>

text \<open>
  The script runs on Google Apps Script. The services and built-ins it calls are not part
  of the repository; the model takes them as a record of functions, and every theorem
  holds for every such record unless it states a hypothesis about one of them.

  \<^item> \<open>parseDate text tz pattern\<close> is \<^verbatim>\<open>Utilities.parseDate\<close>: it throws
    (\<open>Inl\<close>) or returns a date, possibly an invalid one;
  \<^item> \<open>formatDate t tz pattern\<close> is \<^verbatim>\<open>Utilities.formatDate\<close> on a valid date;
  \<^item> \<open>dateParse s\<close> is \<^verbatim>\<open>new Date(s)\<close> on a string;
  \<^item> \<open>newDateLocal y m d\<close> is \<^verbatim>\<open>new Date(y, m, d)\<close> in the local time zone;
  \<^item> \<open>getFullYear t\<close> and \<open>getTimezoneOffset t\<close> are the methods of a valid date;
  \<^item> \<open>scriptTimeZone\<close> is \<^verbatim>\<open>Session.getScriptTimeZone()\<close>;
  \<^item> \<open>parseInt10 s\<close> is \<^verbatim>\<open>parseInt(s, 10)\<close>, \<open>parseFloat s\<close> is
    \<^verbatim>\<open>parseFloat(s)\<close>;
  \<^item> \<open>localeCompare a b\<close> is \<^verbatim>\<open>a.localeCompare(b)\<close>;
  \<^item> \<open>toFixed1 n\<close> is \<^verbatim>\<open>n.toFixed(1)\<close>.
\<close>

record platform =
  parseDate :: "string \<Rightarrow> string \<Rightarrow> string \<Rightarrow> exn + int option"
  formatDate :: "int \<Rightarrow> string \<Rightarrow> string \<Rightarrow> exn + string"
  dateParse :: "string \<Rightarrow> int option"
  newDateLocal :: "jsnum \<Rightarrow> jsnum \<Rightarrow> jsnum \<Rightarrow> int option"
  getFullYear :: "int \<Rightarrow> int"
  getTimezoneOffset :: "int \<Rightarrow> int"
  scriptTimeZone :: string
  parseInt10 :: "string \<Rightarrow> jsnum"
  parseFloat :: "string \<Rightarrow> jsnum"
  localeCompare :: "string \<Rightarrow> string \<Rightarrow> int"
  toFixed1 :: "jsnum \<Rightarrow> string"

definition SCRIPT_TIMEZONE :: string where
  "SCRIPT_TIMEZONE = ''GMT+5:30''"

section \<open>parseDateValue\<close>

subsection \<open>Code.js\<close>

text \<open>
  Lines 173-188 of \<^verbatim>\<open>Code.js\<close>, the serial-number branch: the value of
  \<^verbatim>\<open>parsedDate\<close> it leaves (\<open>None\<close> is \<^verbatim>\<open>null\<close>).
\<close>

definition serialDate :: "platform \<Rightarrow> jsnum \<Rightarrow> int option" where
  "serialDate P dateValue =
     (let baseDate = newDateLocal P (Fin 1899) (Fin 11) (Fin 30);
          dateMillis =
            jsAdd (getTime baseDate)
              (jsMul (jsMul (jsMul (jsMul dateValue (Fin 24)) (Fin 60)) (Fin 60)) (Fin 1000));
          potentialDate = timeClip dateMillis;
          offset =
            jsMul (jsMul
              (case potentialDate of
                 None \<Rightarrow> NaN
               | Some t \<Rightarrow> Fin (of_int (getTimezoneOffset P t))) (Fin 60)) (Fin 1000);
          adjustedDate = timeClip (jsSub dateMillis offset)
      in adjustedDate)"

text \<open>
  Lines 192-260, the nested string attempts. Each \<^verbatim>\<open>catch\<close> only logs, so an
  attempt that throws ends the whole chain with \<^verbatim>\<open>parsedDate\<close> still null; an
  attempt that returns an invalid date passes on to the next one.
\<close>

definition stringDate :: "platform \<Rightarrow> string \<Rightarrow> int option" where
  "stringDate P trimmedDate =
     (case parseDate P trimmedDate SCRIPT_TIMEZONE ''dd-MM-yyyy'' of
        Inl _ \<Rightarrow> None
      | Inr (Some p) \<Rightarrow> Some p
      | Inr None \<Rightarrow>
     (case parseDate P trimmedDate SCRIPT_TIMEZONE ''yyyy-MM-dd'' of
        Inl _ \<Rightarrow> None
      | Inr (Some p) \<Rightarrow> Some p
      | Inr None \<Rightarrow>
     (case parseDate P trimmedDate SCRIPT_TIMEZONE ''dd/MM/yyyy'' of
        Inl _ \<Rightarrow> None
      | Inr (Some p) \<Rightarrow> Some p
      | Inr None \<Rightarrow>
     (case parseDate P trimmedDate SCRIPT_TIMEZONE ''MM/dd/yyyy'' of
        Inl _ \<Rightarrow> None
      | Inr (Some p) \<Rightarrow> Some p
      | Inr None \<Rightarrow> dateParse P trimmedDate))))"

text \<open>
  \<^verbatim>\<open>parseDateValue\<close> of \<^verbatim>\<open>Code.js\<close> (lines 164-276). It never throws; the
  result is the formatted date or \<open>None\<close> for \<^verbatim>\<open>null\<close>.
\<close>

definition parseDateValue :: "platform \<Rightarrow> jsval \<Rightarrow> string option" where
  "parseDateValue P dateValue =
     (let parsedDate =
            (case dateValue of
               VDate (Some t) \<Rightarrow> Some t
             | VNum n \<Rightarrow> (if jsLess (Fin 0) n then serialDate P n else None)
             | VStr s \<Rightarrow> (if trim s \<noteq> [] then stringDate P (trim s) else None)
             | _ \<Rightarrow> None)
      in case parsedDate of
           None \<Rightarrow> None
         | Some t \<Rightarrow>
             (case formatDate P t SCRIPT_TIMEZONE ''yyyy-MM-dd'' of
                Inl _ \<Rightarrow> None
              | Inr s \<Rightarrow> Some s))"

subsection \<open>unnamed/part_000\<close>

definition preferredFormat :: string where
  "preferredFormat = ''yyyy-MM-dd''"

definition alternativeFormats :: "string list" where
  "alternativeFormats = [''dd-MM-yyyy'', ''dd/MM/yyyy'', ''MM/dd/yyyy'']"

text \<open>
  Lines 190-199 of \<^verbatim>\<open>part_000\<close>, the loop over the alternative formats: a format
  that throws or returns an invalid date is skipped, the first valid date breaks the loop.
\<close>

fun tryFormats :: "platform \<Rightarrow> string \<Rightarrow> string list \<Rightarrow> int option" where
  "tryFormats P trimmedDateStr [] = None"
| "tryFormats P trimmedDateStr (format # formats) =
     (case parseDate P trimmedDateStr (scriptTimeZone P) format of
        Inr (Some d) \<Rightarrow> Some d
      | _ \<Rightarrow> tryFormats P trimmedDateStr formats)"

text \<open>Lines 180-200: \<^verbatim>\<open>parsedDateObj\<close> after the two string attempts.\<close>

definition stringDate_part000 :: "platform \<Rightarrow> string \<Rightarrow> int option" where
  "stringDate_part000 P trimmedDateStr =
     (let parsedDateObj =
            (case parseDate P trimmedDateStr (scriptTimeZone P) preferredFormat of
               Inr (Some d) \<Rightarrow> Some d
             | _ \<Rightarrow> None)
      in if parsedDateObj = None then tryFormats P trimmedDateStr alternativeFormats
         else parsedDateObj)"

text \<open>
  Lines 215-248: the serial-number attempt. The \<^verbatim>\<open>throw\<close> of line 234 is caught at
  line 245, which leaves \<^verbatim>\<open>parsedDateObj\<close> null.
\<close>

definition serialDate_part000 :: "platform \<Rightarrow> jsnum \<Rightarrow> int option" where
  "serialDate_part000 P inputValue =
     (if jsLess inputValue (Fin 20000) \<and> jsLess (Fin 70000) inputValue
         \<and> jsStrictNe inputValue (jsFloor inputValue)
      then None
      else
        (let baseDate = newDateLocal P (Fin 1899) (Fin 11) (Fin 30);
             dateMillis =
               jsAdd (getTime baseDate)
                 (jsMul (jsMul (jsMul (jsMul inputValue (Fin 24)) (Fin 60)) (Fin 60)) (Fin 1000));
             tempDate = timeClip dateMillis;
             year = (case tempDate of None \<Rightarrow> NaN | Some t \<Rightarrow> Fin (of_int (getFullYear P t)))
         in if jsLess year (Fin 1900) \<or> jsLess (Fin 2100) year
            then (if jsLess (Fin 1000000000000) inputValue
                     \<and> jsLess inputValue (Fin 9999999999999)
                  then timeClip inputValue
                  else None)
            else timeClip dateMillis))"

text \<open>
  Lines 259-271 of \<^verbatim>\<open>part_000\<close>, the final block. The local variable of this
  revision is \<^verbatim>\<open>parsedDateObj\<close>, but line 262 passes the identifier
  \<^verbatim>\<open>parsedDate\<close>, which is declared nowhere in the file, to
  \<^verbatim>\<open>Utilities.formatDate\<close>: evaluating it throws a ReferenceError, the
  \<^verbatim>\<open>catch\<close> of line 263 evaluates the same identifier (and \<^verbatim>\<open>origin\<close>) for
  its log message and throws again, and that error leaves the function.
\<close>

definition returnFormatted_part000 :: "int option \<Rightarrow> exn + string option" where
  "returnFormatted_part000 parsedDateObj =
     (case parsedDateObj of
        None \<Rightarrow> Inr None
      | Some d \<Rightarrow> Inl ReferenceError)"

text \<open>
  \<^verbatim>\<open>parseDateValue\<close> of \<^verbatim>\<open>part_000\<close> (lines 166-272): a string is trimmed and,
  when empty, returns null at once (line 177); the string attempts, the date object
  (line 204) and the serial number (line 210) each apply to their own type of input.
\<close>

definition parseDateValue_part000 :: "platform \<Rightarrow> jsval \<Rightarrow> exn + string option" where
  "parseDateValue_part000 P inputValue =
     (case inputValue of
        VStr s \<Rightarrow>
          (if trim s = [] then Inr None
           else returnFormatted_part000 (stringDate_part000 P (trim s)))
      | VDate d \<Rightarrow> returnFormatted_part000 d
      | VNum n \<Rightarrow>
          returnFormatted_part000
            (if jsLess (Fin 0) n then serialDate_part000 P n else None)
      | _ \<Rightarrow> Inr None)"

section \<open>Configuration\<close>

definition COL_DAY :: nat where "COL_DAY = 1"
definition COL_DATE :: nat where "COL_DATE = 2"
definition COL_CENTRE :: nat where "COL_CENTRE = 3"
definition COL_SANGAT :: nat where "COL_SANGAT = 4"
definition COL_MODE :: nat where "COL_MODE = 5"
definition COL_NAME :: nat where "COL_NAME = 6"
definition COL_ARRIVAL :: nat where "COL_ARRIVAL = 7"
definition COL_SATSANG :: nat where "COL_SATSANG = 8"
definition COL_SAINT :: nat where "COL_SAINT = 9"
definition COL_BOOK :: nat where "COL_BOOK = 10"
definition COL_START :: nat where "COL_START = 11"
definition COL_END :: nat where "COL_END = 12"

lemmas COL_defs =
  COL_DAY_def COL_DATE_def COL_CENTRE_def COL_SANGAT_def COL_MODE_def COL_NAME_def
  COL_ARRIVAL_def COL_SATSANG_def COL_SAINT_def COL_BOOK_def COL_START_def COL_END_def

text \<open>
  \<^verbatim>\<open>eventDetailColumns\<close> and \<^verbatim>\<open>specialEventHeaders\<close> as lists of (key, index); the
  \<^verbatim>\<open>name\<close> of each entry is a table heading and is not used by the functions below.
\<close>

definition eventDetailColumns :: "(string \<times> nat) list" where
  "eventDetailColumns =
     [(''totalSangat'', COL_SANGAT - 1),
      (''mode'', COL_MODE - 1),
      (''name'', COL_NAME - 1),
      (''arrival'', COL_ARRIVAL - 1),
      (''satsang'', COL_SATSANG - 1),
      (''saint'', COL_SAINT - 1),
      (''book'', COL_BOOK - 1),
      (''start'', COL_START - 1),
      (''end'', COL_END - 1)]"

definition specialEventHeaders :: "(string \<times> nat) list" where
  "specialEventHeaders =
     [(''date'', COL_DATE - 1),
      (''day'', COL_DAY - 1),
      (''centre'', COL_CENTRE - 1)] @ eventDetailColumns"

definition customCentreOrder :: "string list" where
  "customCentreOrder =
     [''ALWAR'', ''ALWAR-2'', ''BEHROR'', ''BHIWADI'', ''BHOJRAJKA'', ''CHIKANI'', ''DESULA'',
      ''FATEHPUR'', ''GOBINDGARH'', ''GUNTASHAPUR'', ''HALDEENA'', ''HAZIPUR'', ''JHALATALA'',
      ''KARANA'', ''KARNIKOT'', ''KASBA DEHRA'', ''KAYSA'', ''KHAIRTHAL'', ''KISHANGARH BAS'',
      ''LAXMANGARH'', ''MUBARIKPUR'', ''MUNDAWAR'', ''PAHADI'', ''PARVENI'', ''PAWTI'',
      ''PEPEAL KHERA'', ''PRATAPGARH'', ''RAJGARH'', ''RAMGARH'', ''RATA KHURD'', ''SHAHBAD'',
      ''SHAJHANPUR'', ''TAPUKARA'', ''TATARPUR'']"

definition boldCentres :: "string list" where
  "boldCentres = [''ALWAR'', ''ALWAR-2'', ''RAMGARH'', ''KHAIRTHAL'', ''CHIKANI'']"

section \<open>Rows and objects\<close>

text \<open>
  An item is \<^verbatim>\<open>{ valueRow, displayRow, ymd }\<close>. A display cell is a string; \<open>None\<close>
  stands for a \<^verbatim>\<open>null\<close> or \<^verbatim>\<open>undefined\<close> cell, and so does an index beyond the
  row. \<open>ymd\<close> is the normalised date; \<open>None\<close> and the empty string are falsy.
\<close>

record dataItem =
  valueRow :: "jsval list"
  displayRow :: "string option list"
  ymd :: "string option"

definition displayAt :: "string option list \<Rightarrow> nat \<Rightarrow> string option" where
  "displayAt row i = (if i < length row then row ! i else None)"

definition valueAt :: "jsval list \<Rightarrow> nat \<Rightarrow> jsval" where
  "valueAt row i = (if i < length row then row ! i else VUndefined)"

text \<open>
  \<^verbatim>\<open>cellDisplayValue === null || cellDisplayValue === undefined ? "" : cellDisplayValue\<close>
\<close>

definition orEmpty :: "string option \<Rightarrow> string" where
  "orEmpty cellDisplayValue = (case cellDisplayValue of None \<Rightarrow> [] | Some s \<Rightarrow> s)"

text \<open>
  A plain object used as a dictionary is the list of its own properties in the order of
  their creation. Reading a key that is not an own property finds the properties
  inherited from \<^verbatim>\<open>Object.prototype\<close>, all of them truthy; every value the script
  stores is truthy as well, so \<^verbatim>\<open>!obj[k]\<close> is the negation of \<open>jsTruthyAt\<close>.
\<close>

definition objectPrototypeKeys :: "string list" where
  "objectPrototypeKeys =
     [''constructor'', ''__defineGetter__'', ''__defineSetter__'', ''hasOwnProperty'',
      ''__lookupGetter__'', ''__lookupSetter__'', ''isPrototypeOf'', ''propertyIsEnumerable'',
      ''toString'', ''valueOf'', ''__proto__'', ''toLocaleString'']"

definition jsTruthyAt :: "(string \<times> 'v) list \<Rightarrow> string \<Rightarrow> bool" where
  "jsTruthyAt obj k = (k \<in> set (map fst obj) \<or> k \<in> set objectPrototypeKeys)"

definition digitVal :: "char \<Rightarrow> int option" where
  "digitVal c =
     (let n = (of_char c :: int) in if 48 \<le> n \<and> n \<le> 57 then Some (n - 48) else None)"

fun readDigits :: "int \<Rightarrow> string \<Rightarrow> int option" where
  "readDigits acc [] = Some acc"
| "readDigits acc (c # cs) =
     (case digitVal c of None \<Rightarrow> None | Some d \<Rightarrow> readDigits (10 * acc + d) cs)"

definition readNat :: "string \<Rightarrow> int option" where
  "readNat s = (if s = [] then None else readDigits 0 s)"

text \<open>
  \<^verbatim>\<open>Object.keys\<close> lists the keys that are array indices (canonical decimal strings
  below \<open>2^32 - 1\<close>) first, in ascending numeric order, then the other keys in the order
  of their creation.
\<close>

definition arrayIndex :: "string \<Rightarrow> int option" where
  "arrayIndex s =
     (case readNat s of
        None \<Rightarrow> None
      | Some n \<Rightarrow> (if showInt n = s \<and> n < 4294967295 then Some n else None))"

definition objectKeys :: "(string \<times> 'v) list \<Rightarrow> string list" where
  "objectKeys obj =
     (let ks = map fst obj
      in sort_key (\<lambda>k. case arrayIndex k of None \<Rightarrow> 0 | Some n \<Rightarrow> n)
           (filter (\<lambda>k. arrayIndex k \<noteq> None) ks)
         @ filter (\<lambda>k. arrayIndex k = None) ks)"

text \<open>
  \<^verbatim>\<open>Array.prototype.sort\<close> with a comparator is a stable sort (ECMAScript 2019); it is
  modelled as insertion sort. For a comparator that is a consistent order on the elements
  the language fixes the result: it is the one stable, sorted rearrangement of the input
  (lemma \<open>stable_sort_unique\<close> below), so the model is exact. For a comparator that is
  not consistent the language leaves the order to the implementation; the model then
  gives one possible order, and no general statement is made about that case.
\<close>

fun insertBy :: "('a \<Rightarrow> 'a \<Rightarrow> int) \<Rightarrow> 'a \<Rightarrow> 'a list \<Rightarrow> 'a list" where
  "insertBy cmp x [] = [x]"
| "insertBy cmp x (y # ys) = (if cmp x y \<le> 0 then x # y # ys else y # insertBy cmp x ys)"

definition jsSort :: "('a \<Rightarrow> 'a \<Rightarrow> int) \<Rightarrow> 'a list \<Rightarrow> 'a list" where
  "jsSort cmp xs = foldr (insertBy cmp) xs []"

section \<open>processAndSortData\<close>

subsection \<open>The pass over the rows (the same in both files)\<close>

type_synonym eventDetails = "(string \<times> string) list"

record centreData =
  dateData :: "(string \<times> eventDetails) list"
  totalSangatSum :: jsnum
  sangatCount :: nat

type_synonym processedData = "(string \<times> centreData) list"
type_synonym uniqueDateInfo = "(string \<times> string) list"

text \<open>Code.js lines 440-442.\<close>

definition centreNameOf :: "nat \<Rightarrow> dataItem \<Rightarrow> string" where
  "centreNameOf index item =
     (case displayAt (displayRow item) (COL_CENTRE - 1) of
        None \<Rightarrow> ''_UnknownCentre_'' @ showNat index
      | Some s \<Rightarrow> (if s = [] then ''_UnknownCentre_'' @ showNat index else trim s))"

text \<open>\<^verbatim>\<open>parts[i]\<close>, and its text inside a template literal or as the argument of parseInt.\<close>

definition partAt :: "string list \<Rightarrow> nat \<Rightarrow> string option" where
  "partAt parts i = (if i < length parts then Some (parts ! i) else None)"

definition partText :: "string option \<Rightarrow> string" where
  "partText p = (case p of None \<Rightarrow> ''undefined'' | Some s \<Rightarrow> s)"

text \<open>Lines 482-483: the key built in the outer \<^verbatim>\<open>catch\<close>.\<close>

definition fallbackKey :: "string \<Rightarrow> string" where
  "fallbackKey dateSortKey =
     (let parts = splitOn CHR ''-'' dateSortKey
      in partText (partAt parts 2) @ ''-'' @ partText (partAt parts 1) @ ''-''
         @ partText (partAt parts 0))"

text \<open>
  Lines 450-465: \<^verbatim>\<open>originalDate\<close>, from the platform parser or, when that throws or
  returns an invalid date, from the parts of the string. \<open>None\<close> is the throw of
  "Fallback fail".
\<close>

definition originalDate :: "platform \<Rightarrow> string \<Rightarrow> int option" where
  "originalDate P dateSortKey =
     (case parseDate P dateSortKey (scriptTimeZone P) ''yyyy-MM-dd'' of
        Inr (Some t) \<Rightarrow> Some t
      | _ \<Rightarrow>
          (let parts = splitOn CHR ''-'' dateSortKey;
               year = parseInt10 P (partText (partAt parts 0));
               month = jsSub (parseInt10 P (partText (partAt parts 1))) (Fin 1);
               day = parseInt10 P (partText (partAt parts 2))
           in newDateLocal P year month day))"

text \<open>Lines 446-491: the display key of a row; \<^verbatim>\<open>dateSortKey\<close> is its truthy \<^verbatim>\<open>ymd\<close>.\<close>

definition datePivotKey :: "platform \<Rightarrow> string \<Rightarrow> string" where
  "datePivotKey P dateSortKey =
     (case originalDate P dateSortKey of
        None \<Rightarrow> fallbackKey dateSortKey
      | Some t \<Rightarrow>
          (case formatDate P t (scriptTimeZone P) ''dd-MM-yyyy'' of
             Inl _ \<Rightarrow> fallbackKey dateSortKey
           | Inr k \<Rightarrow> k))"

text \<open>Lines 505-512.\<close>

definition eventDetailsOf :: "dataItem \<Rightarrow> eventDetails" where
  "eventDetailsOf item =
     map (\<lambda>(key, index). (key, orEmpty (displayAt (displayRow item) index))) eventDetailColumns"

text \<open>Lines 517-523.\<close>

definition numericSangat :: "platform \<Rightarrow> dataItem \<Rightarrow> jsnum" where
  "numericSangat P item =
     (case valueAt (valueRow item) (COL_SANGAT - 1) of
        VNum n \<Rightarrow> n
      | VStr s \<Rightarrow> parseFloat P (filter (\<lambda>c. c \<noteq> CHR '','') s)
      | _ \<Rightarrow> NaN)"

text \<open>Lines 514-529, on the entry of the row's centre.\<close>

definition addEvent :: "platform \<Rightarrow> dataItem \<Rightarrow> string \<Rightarrow> centreData \<Rightarrow> centreData" where
  "addEvent P item key cd =
     (if jsTruthyAt (dateData cd) key then cd
      else
        (let cd1 = cd\<lparr>dateData := dateData cd @ [(key, eventDetailsOf item)]\<rparr>
         in if \<not> isNaN (numericSangat P item)
            then cd1\<lparr>totalSangatSum := jsAdd (totalSangatSum cd1) (numericSangat P item),
                      sangatCount := sangatCount cd1 + 1\<rparr>
            else cd1))"

definition newCentre :: centreData where
  "newCentre = \<lparr>dateData = [], totalSangatSum = Fin 0, sangatCount = 0\<rparr>"

text \<open>
  The callback of \<^verbatim>\<open>dataItems.forEach\<close> (lines 435-530). A centre name that is a
  property of \<^verbatim>\<open>Object.prototype\<close> reads as truthy at line 497, no entry is created,
  and line 514 reads \<^verbatim>\<open>dateData\<close> of a value that has none, then a key of
  \<^verbatim>\<open>undefined\<close>: a TypeError that leaves \<^verbatim>\<open>processAndSortData\<close>.
\<close>

definition processItem ::
  "platform \<Rightarrow> processedData \<times> uniqueDateInfo \<Rightarrow> nat \<times> dataItem
     \<Rightarrow> exn + processedData \<times> uniqueDateInfo" where
  "processItem P st ix =
     (let (processedData, uniqueDateInfo) = st; (index, item) = ix
      in case ymd item of
           None \<Rightarrow> Inr st
         | Some y \<Rightarrow>
             (if y = [] then Inr st
              else
                (let centre = centreNameOf index item;
                     key = datePivotKey P y;
                     uniqueDateInfo1 =
                       (if jsTruthyAt uniqueDateInfo key then uniqueDateInfo
                        else uniqueDateInfo @ [(key, y)]);
                     processedData1 =
                       (if jsTruthyAt processedData centre then processedData
                        else processedData @ [(centre, newCentre)])
                 in case map_of processedData1 centre of
                      None \<Rightarrow> Inl TypeError
                    | Some cd \<Rightarrow>
                        Inr (map (\<lambda>(c, d). if c = centre then (c, addEvent P item key d) else (c, d))
                               processedData1,
                             uniqueDateInfo1))))"

fun forEachItem ::
  "platform \<Rightarrow> processedData \<times> uniqueDateInfo \<Rightarrow> (nat \<times> dataItem) list
     \<Rightarrow> exn + processedData \<times> uniqueDateInfo" where
  "forEachItem P st [] = Inr st"
| "forEachItem P st (ix # rest) =
     (case processItem P st ix of
        Inl e \<Rightarrow> Inl e
      | Inr st1 \<Rightarrow> forEachItem P st1 rest)"

definition indexed :: "'a list \<Rightarrow> (nat \<times> 'a) list" where
  "indexed xs = zip [0 ..< length xs] xs"

text \<open>Lines 532-536: the keys of \<^verbatim>\<open>uniqueDateInfo\<close> sorted by their stored ISO dates.\<close>

definition isoOf :: "uniqueDateInfo \<Rightarrow> string \<Rightarrow> string" where
  "isoOf uniqueDateInfo k = (case map_of uniqueDateInfo k of None \<Rightarrow> [] | Some v \<Rightarrow> v)"

definition sortDateKeys :: "platform \<Rightarrow> uniqueDateInfo \<Rightarrow> string list" where
  "sortDateKeys P uniqueDateInfo =
     jsSort (\<lambda>a b. localeCompare P (isoOf uniqueDateInfo a) (isoOf uniqueDateInfo b))
       (objectKeys uniqueDateInfo)"

subsection \<open>The output rows\<close>

text \<open>
  An output row. \<open>rowDateData\<close> is \<open>None\<close> when the script stores \<^verbatim>\<open>undefined\<close>
  there.
\<close>

record templateRow =
  centre :: string
  isBold :: bool
  rowDateData :: "(string \<times> eventDetails) list option"
  averageSangat :: string
  isMissingData :: bool

record pivotResult =
  templateData :: "templateRow list"
  sortedDates :: "string list"

fun jsDivNat :: "jsnum \<Rightarrow> nat \<Rightarrow> jsnum" where
  "jsDivNat (Fin a) n = Fin (a / of_nat n)"
| "jsDivNat x n = x"

definition averageOf :: "platform \<Rightarrow> centreData \<Rightarrow> string" where
  "averageOf P cd =
     (if sangatCount cd > 0 then toFixed1 P (jsDivNat (totalSangatSum cd) (sangatCount cd))
      else ''N/A'')"

text \<open>Does the centre lack a cell for one of the sorted date keys (the loops with break).\<close>

definition lacksSomeDate :: "centreData \<Rightarrow> string list \<Rightarrow> bool" where
  "lacksSomeDate cd sortedDateKeys = list_ex (\<lambda>dateKey. \<not> jsTruthyAt (dateData cd) dateKey) sortedDateKeys"

text \<open>
  The body of the loop over the canonical centres (Code.js lines 549-588, part_000 lines
  545-581). A name inherited from \<^verbatim>\<open>Object.prototype\<close> reads as a value without
  \<^verbatim>\<open>dateData\<close>: the check of the dates throws a TypeError when there is a date,
  otherwise the row gets \<^verbatim>\<open>undefined\<close> as its \<^verbatim>\<open>dateData\<close>.
\<close>

definition canonicalRow ::
  "platform \<Rightarrow> processedData \<Rightarrow> string list \<Rightarrow> string \<Rightarrow> exn + templateRow" where
  "canonicalRow P processedData sortedDateKeys centreName =
     (case map_of processedData centreName of
        Some cd \<Rightarrow>
          Inr \<lparr>centre = centreName,
               isBold = (centreName \<in> set boldCentres),
               rowDateData = Some (dateData cd),
               averageSangat = averageOf P cd,
               isMissingData = (sortedDateKeys \<noteq> [] \<and> lacksSomeDate cd sortedDateKeys)\<rparr>
      | None \<Rightarrow>
          (if centreName \<in> set objectPrototypeKeys
           then (if sortedDateKeys \<noteq> [] then Inl TypeError
                 else Inr \<lparr>centre = centreName,
                           isBold = (centreName \<in> set boldCentres),
                           rowDateData = None,
                           averageSangat = ''N/A'',
                           isMissingData = False\<rparr>)
           else Inr \<lparr>centre = centreName,
                     isBold = (centreName \<in> set boldCentres),
                     rowDateData = Some [],
                     averageSangat = ''N/A'',
                     isMissingData = (sortedDateKeys \<noteq> [])\<rparr>))"

fun canonicalRows ::
  "platform \<Rightarrow> processedData \<Rightarrow> string list \<Rightarrow> string list \<Rightarrow> exn + templateRow list" where
  "canonicalRows P processedData sortedDateKeys [] = Inr []"
| "canonicalRows P processedData sortedDateKeys (centreName # rest) =
     (case canonicalRow P processedData sortedDateKeys centreName of
        Inl e \<Rightarrow> Inl e
      | Inr row \<Rightarrow>
          (case canonicalRows P processedData sortedDateKeys rest of
             Inl e \<Rightarrow> Inl e
           | Inr rows \<Rightarrow> Inr (row # rows)))"

text \<open>
  The remaining centres: the own keys of \<^verbatim>\<open>processedData\<close>, sorted with
  \<^verbatim>\<open>localeCompare\<close>, without those already added.
\<close>

definition remainingCentres :: "platform \<Rightarrow> processedData \<Rightarrow> string list \<Rightarrow> string list" where
  "remainingCentres P processedData centresAlreadyAddedToFinal =
     filter (\<lambda>centreName. centreName \<notin> set centresAlreadyAddedToFinal)
       (jsSort (localeCompare P) (objectKeys processedData))"

text \<open>Code.js lines 599-610: a remaining centre is never flagged.\<close>

definition remainingRow :: "platform \<Rightarrow> processedData \<Rightarrow> string \<Rightarrow> templateRow list" where
  "remainingRow P processedData centreName =
     (case map_of processedData centreName of
        None \<Rightarrow> []
      | Some centreData \<Rightarrow>
          [\<lparr>centre = centreName,
            isBold = (centreName \<in> set boldCentres),
            rowDateData = Some (dateData centreData),
            averageSangat = averageOf P centreData,
            isMissingData = False\<rparr>])"

text \<open>part_000 lines 592-622: a remaining centre is flagged when it lacks a date.\<close>

definition remainingRow_part000 ::
  "platform \<Rightarrow> processedData \<Rightarrow> string list \<Rightarrow> string \<Rightarrow> templateRow list" where
  "remainingRow_part000 P processedData sortedDateKeys centreName =
     (case map_of processedData centreName of
        None \<Rightarrow> []
      | Some centreData \<Rightarrow>
          [\<lparr>centre = centreName,
            isBold = (centreName \<in> set boldCentres),
            rowDateData = Some (dateData centreData),
            averageSangat = averageOf P centreData,
            isMissingData = (sortedDateKeys \<noteq> [] \<and> lacksSomeDate centreData sortedDateKeys)\<rparr>])"

text \<open>
  \<^verbatim>\<open>processAndSortData\<close> of \<^verbatim>\<open>Code.js\<close> (lines 419-618). \<open>selectedMonth\<close> is only
  logged.
\<close>

definition processAndSortData ::
  "platform \<Rightarrow> dataItem list \<Rightarrow> string \<Rightarrow> bool \<Rightarrow> exn + pivotResult" where
  "processAndSortData P dataItems selectedMonth isSundayData =
     (if dataItems = [] \<and> \<not> isSundayData then Inr \<lparr>templateData = [], sortedDates = []\<rparr>
      else
        (case forEachItem P ([], []) (indexed dataItems) of
           Inl e \<Rightarrow> Inl e
         | Inr (processedData, uniqueDateInfo) \<Rightarrow>
             (let sortedDateKeys = sortDateKeys P uniqueDateInfo;
                  centresAlreadyAddedToFinal = (if isSundayData then customCentreOrder else [])
              in case canonicalRows P processedData sortedDateKeys centresAlreadyAddedToFinal of
                   Inl e \<Rightarrow> Inl e
                 | Inr finalTemplateData \<Rightarrow>
                     Inr \<lparr>templateData =
                            finalTemplateData
                            @ concat (map (remainingRow P processedData)
                                (remainingCentres P processedData centresAlreadyAddedToFinal)),
                          sortedDates = sortedDateKeys\<rparr>)))"

text \<open>
  \<^verbatim>\<open>processAndSortData\<close> of \<^verbatim>\<open>part_000\<close> (lines 420-639). \<open>allRelevantCenters\<close>
  is \<open>None\<close> for \<^verbatim>\<open>null\<close>, the default, which line 425 replaces by the empty list;
  \<open>isSundayData\<close> is only logged.
\<close>

definition processAndSortData_part000 ::
  "platform \<Rightarrow> dataItem list \<Rightarrow> string \<Rightarrow> bool \<Rightarrow> string list option \<Rightarrow> exn + pivotResult" where
  "processAndSortData_part000 P dataItems selectedMonth isSundayData allRelevantCenters =
     (let allRelevantCenters1 = (case allRelevantCenters of None \<Rightarrow> [] | Some cs \<Rightarrow> cs)
      in case forEachItem P ([], []) (indexed dataItems) of
           Inl e \<Rightarrow> Inl e
         | Inr (processedData, uniqueDateInfo) \<Rightarrow>
             (let sortedDateKeys = sortDateKeys P uniqueDateInfo
              in case canonicalRows P processedData sortedDateKeys allRelevantCenters1 of
                   Inl e \<Rightarrow> Inl e
                 | Inr finalTemplateData \<Rightarrow>
                     Inr \<lparr>templateData =
                            finalTemplateData
                            @ concat (map (remainingRow_part000 P processedData sortedDateKeys)
                                (remainingCentres P processedData allRelevantCenters1)),
                          sortedDates = sortedDateKeys\<rparr>))"

section \<open>The first pass of getDataForDashboard\<close>

text \<open>
  A data row of the sheet is given twice, by its underlying values and by its display
  values. The first pass (Code.js lines 311-322, part_000 lines 307-318) keeps a row as an
  item when \<^verbatim>\<open>parseDateValue\<close> returns a truthy string for its date cell; in
  \<^verbatim>\<open>part_000\<close> an error thrown by \<^verbatim>\<open>parseDateValue\<close> ends the loop and reaches
  the \<^verbatim>\<open>catch\<close> of \<^verbatim>\<open>getDataForDashboard\<close>.
\<close>

type_synonym sheetRow = "jsval list \<times> string option list"

fun validDataItems :: "platform \<Rightarrow> sheetRow list \<Rightarrow> dataItem list" where
  "validDataItems P [] = []"
| "validDataItems P (row # rest) =
     (case parseDateValue P (valueAt (fst row) (COL_DATE - 1)) of
        None \<Rightarrow> validDataItems P rest
      | Some parsedYMD \<Rightarrow>
          (if parsedYMD = [] then validDataItems P rest
           else \<lparr>valueRow = fst row, displayRow = snd row, ymd = Some parsedYMD\<rparr>
                # validDataItems P rest))"

fun validDataItems_part000 :: "platform \<Rightarrow> sheetRow list \<Rightarrow> exn + dataItem list" where
  "validDataItems_part000 P [] = Inr []"
| "validDataItems_part000 P (row # rest) =
     (case parseDateValue_part000 P (valueAt (fst row) (COL_DATE - 1)) of
        Inl e \<Rightarrow> Inl e
      | Inr None \<Rightarrow> validDataItems_part000 P rest
      | Inr (Some parsedYMD) \<Rightarrow>
          (case validDataItems_part000 P rest of
             Inl e \<Rightarrow> Inl e
           | Inr items \<Rightarrow>
               Inr (if parsedYMD = [] then items
                    else \<lparr>valueRow = fst row, displayRow = snd row, ymd = Some parsedYMD\<rparr>
                         # items)))"

section \<open>processSpecialSatsangList (the same in both files)\<close>

text \<open>
  An event object (line 636): the property \<^verbatim>\<open>ymdForSort\<close>, which holds the
  \<^verbatim>\<open>ymd\<close> of the item, and the twelve properties of \<^verbatim>\<open>specialEventHeaders\<close>.
  The whole object, \<^verbatim>\<open>ymdForSort\<close> included, is returned to the caller.
\<close>

record eventObject =
  ymdForSort :: "string option"
  headerFields :: "(string \<times> string) list"

definition eventObjectOf :: "dataItem \<Rightarrow> eventObject" where
  "eventObjectOf item =
     \<lparr>ymdForSort = ymd item,
      headerFields =
        map (\<lambda>(key, index). (key, orEmpty (displayAt (displayRow item) index)))
          specialEventHeaders\<rparr>"

definition truthyStr :: "string option \<Rightarrow> bool" where
  "truthyStr s = (case s of None \<Rightarrow> False | Some t \<Rightarrow> t \<noteq> [])"

text \<open>
  The comparator of Code.js lines 648-651. It gives 0 as soon as one of the two keys is
  missing, so on a list with a missing key it is not a consistent order: a row without
  key compares equal to two rows that do not compare equal to each other.
\<close>

definition compareEvents :: "platform \<Rightarrow> eventObject \<Rightarrow> eventObject \<Rightarrow> int" where
  "compareEvents P a b =
     (if \<not> truthyStr (ymdForSort a) \<or> \<not> truthyStr (ymdForSort b) then 0
      else localeCompare P (orEmpty (ymdForSort a)) (orEmpty (ymdForSort b)))"

definition processSpecialSatsangList :: "platform \<Rightarrow> dataItem list \<Rightarrow> eventObject list" where
  "processSpecialSatsangList P dataItems =
     (if dataItems = [] then []
      else jsSort (compareEvents P) (map eventObjectOf dataItems))"

section \<open>A reference platform\<close>

text \<open>
  One concrete platform, on which the model is run for examples: the proleptic Gregorian
  calendar, a parser that accepts three numeric fields forming a calendar date and throws
  on anything else, the fixed zone GMT+5:30 as script and local time zone, and comparison
  of strings by character code. It stands for the platform in closed examples only; no
  general theorem depends on it.
\<close>

definition daysFromCivil :: "int \<Rightarrow> int \<Rightarrow> int \<Rightarrow> int" where
  "daysFromCivil y m d =
     (let y1 = (if m \<le> 2 then y - 1 else y);
          era = y1 div 400;
          yoe = y1 - era * 400;
          doy = (153 * (if m > 2 then m - 3 else m + 9) + 2) div 5 + d - 1;
          doe = yoe * 365 + yoe div 4 - yoe div 100 + doy
      in era * 146097 + doe - 719468)"

definition civilFromDays :: "int \<Rightarrow> int \<times> int \<times> int" where
  "civilFromDays z0 =
     (let z = z0 + 719468;
          era = z div 146097;
          doe = z - era * 146097;
          yoe = (doe - doe div 1460 + doe div 36524 - doe div 146096) div 365;
          doy = doe - (365 * yoe + yoe div 4 - yoe div 100);
          mp = (5 * doy + 2) div 153;
          d = doy - (153 * mp + 2) div 5 + 1;
          m = (if mp < 10 then mp + 3 else mp - 9);
          y = yoe + era * 400
      in (if m \<le> 2 then y + 1 else y, m, d))"

definition isLeapYear :: "int \<Rightarrow> bool" where
  "isLeapYear y = (y mod 4 = 0 \<and> (y mod 100 \<noteq> 0 \<or> y mod 400 = 0))"

definition daysInMonth :: "int \<Rightarrow> int \<Rightarrow> int" where
  "daysInMonth y m =
     (if m = 2 then (if isLeapYear y then 29 else 28)
      else if m = 4 \<or> m = 6 \<or> m = 9 \<or> m = 11 then 30 else 31)"

definition validCivil :: "int \<Rightarrow> int \<Rightarrow> int \<Rightarrow> bool" where
  "validCivil y m d = (1 \<le> y \<and> 1 \<le> m \<and> m \<le> 12 \<and> 1 \<le> d \<and> d \<le> daysInMonth y m)"

definition tzOffsetMillis :: "string \<Rightarrow> int" where
  "tzOffsetMillis tz = (if tz = ''GMT+5:30'' then 19800000 else 0)"

definition refParseDate :: "string \<Rightarrow> string \<Rightarrow> string \<Rightarrow> exn + int option" where
  "refParseDate text tz pattern =
     (if pattern \<noteq> ''yyyy-MM-dd'' \<and> pattern \<noteq> ''dd-MM-yyyy''
         \<and> pattern \<noteq> ''dd/MM/yyyy'' \<and> pattern \<noteq> ''MM/dd/yyyy''
      then Inl PlatformError
      else
        (case map readNat
                (splitOn (if pattern = ''dd/MM/yyyy'' \<or> pattern = ''MM/dd/yyyy''
                          then CHR ''/'' else CHR ''-'') text) of
           [Some a, Some b, Some c] \<Rightarrow>
             (let (y, m, d) =
                    (if pattern = ''yyyy-MM-dd'' then (a, b, c)
                     else if pattern = ''MM/dd/yyyy'' then (c, a, b)
                     else (c, b, a))
              in if validCivil y m d
                 then Inr (Some (daysFromCivil y m d * 86400000 - tzOffsetMillis tz))
                 else Inl PlatformError)
         | _ \<Rightarrow> Inl PlatformError))"

definition padLeft :: "nat \<Rightarrow> string \<Rightarrow> string" where
  "padLeft n s = replicate (n - length s) CHR ''0'' @ s"

definition refFormatDate :: "int \<Rightarrow> string \<Rightarrow> string \<Rightarrow> exn + string" where
  "refFormatDate t tz pattern =
     (let (y, m, d) = civilFromDays ((t + tzOffsetMillis tz) div 86400000);
          yyyy = padLeft 4 (showInt y);
          MM = padLeft 2 (showInt m);
          dd = padLeft 2 (showInt d)
      in if y < 1 then Inl PlatformError
         else if pattern = ''yyyy-MM-dd'' then Inr (yyyy @ ''-'' @ MM @ ''-'' @ dd)
         else if pattern = ''dd-MM-yyyy'' then Inr (dd @ ''-'' @ MM @ ''-'' @ yyyy)
         else Inl PlatformError)"

text \<open>\<^verbatim>\<open>new Date(s)\<close>: the ISO form \<^verbatim>\<open>yyyy-MM-dd\<close> is read as UTC; nothing else is recognised.\<close>

definition refDateParse :: "string \<Rightarrow> int option" where
  "refDateParse s =
     (if length s = 10
      then (case refParseDate s ''UTC'' ''yyyy-MM-dd'' of Inr d \<Rightarrow> d | Inl _ \<Rightarrow> None)
      else None)"

definition jsToInt :: "jsnum \<Rightarrow> int option" where
  "jsToInt n = (case n of Fin a \<Rightarrow> Some (if a < 0 then \<lceil>a\<rceil> else \<lfloor>a\<rfloor>) | _ \<Rightarrow> None)"

text \<open>\<^verbatim>\<open>new Date(y, m, d)\<close> at local midnight; the month counts from 0 and may overflow.\<close>

definition refNewDateLocal :: "jsnum \<Rightarrow> jsnum \<Rightarrow> jsnum \<Rightarrow> int option" where
  "refNewDateLocal y m d =
     (case (jsToInt y, jsToInt m, jsToInt d) of
        (Some yi, Some mi, Some di) \<Rightarrow>
          (let y1 = (if 0 \<le> yi \<and> yi \<le> 99 then 1900 + yi else yi)
           in timeClip (Fin (of_int
                ((daysFromCivil (y1 + mi div 12) (mi mod 12 + 1) 1 + di - 1) * 86400000
                 - 19800000))))
      | _ \<Rightarrow> None)"

definition refGetFullYear :: "int \<Rightarrow> int" where
  "refGetFullYear t = fst (civilFromDays ((t + 19800000) div 86400000))"

definition isDigit :: "char \<Rightarrow> bool" where
  "isDigit c = (digitVal c \<noteq> None)"

definition natOfDigits :: "string \<Rightarrow> int" where
  "natOfDigits s = (case readDigits 0 s of None \<Rightarrow> 0 | Some n \<Rightarrow> n)"

text \<open>\<^verbatim>\<open>parseInt(s, 10)\<close>: white space, a sign, then the longest run of digits.\<close>

definition refParseInt10 :: "string \<Rightarrow> jsnum" where
  "refParseInt10 s =
     (let t = dropWhile isWhiteSpace s;
          neg = (t \<noteq> [] \<and> hd t = CHR ''-'');
          u = (if t \<noteq> [] \<and> (hd t = CHR ''-'' \<or> hd t = CHR ''+'') then tl t else t);
          ds = takeWhile isDigit u
      in if ds = [] then NaN
         else Fin (if neg then - of_int (natOfDigits ds) else of_int (natOfDigits ds)))"

text \<open>
  \<^verbatim>\<open>parseFloat(s)\<close>: white space, a sign, digits and an optional fraction (exponents
  and \<^verbatim>\<open>Infinity\<close> are not recognised by this reference function).
\<close>

definition refParseFloat :: "string \<Rightarrow> jsnum" where
  "refParseFloat s =
     (let t = dropWhile isWhiteSpace s;
          neg = (t \<noteq> [] \<and> hd t = CHR ''-'');
          u = (if t \<noteq> [] \<and> (hd t = CHR ''-'' \<or> hd t = CHR ''+'') then tl t else t);
          ds = takeWhile isDigit u;
          r = dropWhile isDigit u;
          fs = (if r \<noteq> [] \<and> hd r = CHR ''.'' then takeWhile isDigit (tl r) else []);
          v = of_int (natOfDigits ds) + of_int (natOfDigits fs) / 10 ^ length fs
      in if ds = [] \<and> fs = [] then NaN else Fin (if neg then - v else v))"

fun refLocaleCompare :: "string \<Rightarrow> string \<Rightarrow> int" where
  "refLocaleCompare [] [] = 0"
| "refLocaleCompare [] (b # bs) = - 1"
| "refLocaleCompare (a # as) [] = 1"
| "refLocaleCompare (a # as) (b # bs) =
     (if (of_char a :: nat) < of_char b then - 1
      else if (of_char b :: nat) < of_char a then 1
      else refLocaleCompare as bs)"

definition refToFixed1 :: "jsnum \<Rightarrow> string" where
  "refToFixed1 n =
     (case n of
        NaN \<Rightarrow> ''NaN''
      | PosInf \<Rightarrow> ''Infinity''
      | NegInf \<Rightarrow> ''-Infinity''
      | Fin a \<Rightarrow>
          (let tenths = \<lfloor>\<bar>a\<bar> * 10 + 1 / 2\<rfloor>
           in (if a < 0 \<and> tenths \<noteq> 0 then ''-'' else [])
              @ showInt (tenths div 10) @ ''.'' @ showInt (tenths mod 10)))"

definition refPlatform :: platform where
  "refPlatform =
     \<lparr>parseDate = refParseDate,
      formatDate = refFormatDate,
      dateParse = refDateParse,
      newDateLocal = refNewDateLocal,
      getFullYear = refGetFullYear,
      getTimezoneOffset = (\<lambda>t. - 330),
      scriptTimeZone = ''GMT+5:30'',
      parseInt10 = refParseInt10,
      parseFloat = refParseFloat,
      localeCompare = refLocaleCompare,
      toFixed1 = refToFixed1\<rparr>"

text \<open>
  The same platform with a lenient parser, as Java's \<^verbatim>\<open>SimpleDateFormat\<close> is by
  default: the three fields are not checked against the calendar, a month or day that is
  out of range rolls over. A text that does not consist of three numeric fields with the
  separator of the pattern still throws.
\<close>

definition lenientParseDate :: "string \<Rightarrow> string \<Rightarrow> string \<Rightarrow> exn + int option" where
  "lenientParseDate text tz pattern =
     (if pattern \<noteq> ''yyyy-MM-dd'' \<and> pattern \<noteq> ''dd-MM-yyyy''
         \<and> pattern \<noteq> ''dd/MM/yyyy'' \<and> pattern \<noteq> ''MM/dd/yyyy''
      then Inl PlatformError
      else
        (case map readNat
                (splitOn (if pattern = ''dd/MM/yyyy'' \<or> pattern = ''MM/dd/yyyy''
                          then CHR ''/'' else CHR ''-'') text) of
           [Some a, Some b, Some c] \<Rightarrow>
             (let (y, m, d) =
                    (if pattern = ''yyyy-MM-dd'' then (a, b, c)
                     else if pattern = ''MM/dd/yyyy'' then (c, a, b)
                     else (c, b, a))
              in Inr (Some ((daysFromCivil (y + (m - 1) div 12) ((m - 1) mod 12 + 1) 1 + d - 1)
                              * 86400000 - tzOffsetMillis tz)))
         | _ \<Rightarrow> Inl PlatformError))"

definition lenientPlatform :: platform where
  "lenientPlatform = refPlatform\<lparr>parseDate := lenientParseDate\<rparr>"

text \<open>A display row and an item as the pipeline builds them from a sheet row.\<close>

definition sheetItem :: "string \<Rightarrow> string \<Rightarrow> string \<Rightarrow> jsval \<Rightarrow> string \<Rightarrow> dataItem" where
  "sheetItem day date location sangat shown =
     \<lparr>valueRow = [VStr day, VStr date, VStr location, sangat],
      displayRow = [Some day, Some date, Some location, Some shown],
      ymd = Some date\<rparr>"

section \<open>The statements of the specification\<close>

text \<open>
  The priority rule in the words of the specification: among a list of formats, the first
  one that yields a valid date wins, and the date is the one that format yields.
\<close>

definition yieldsValidDate :: "platform \<Rightarrow> string \<Rightarrow> string \<Rightarrow> string \<Rightarrow> bool" where
  "yieldsValidDate P tz text format =
     (case parseDate P text tz format of Inr (Some d) \<Rightarrow> True | _ \<Rightarrow> False)"

definition firstValidFormat ::
  "platform \<Rightarrow> string \<Rightarrow> string \<Rightarrow> string list \<Rightarrow> string option" where
  "firstValidFormat P tz text formats = find (yieldsValidDate P tz text) formats"

definition dateByFormat :: "platform \<Rightarrow> string \<Rightarrow> string \<Rightarrow> string option \<Rightarrow> int option" where
  "dateByFormat P tz text format =
     (case format of
        None \<Rightarrow> None
      | Some f \<Rightarrow> (case parseDate P text tz f of Inr d \<Rightarrow> d | Inl _ \<Rightarrow> None))"

text \<open>The order the specification gives, and the order of the attempts in Code.js.\<close>

definition priorityFormats :: "string list" where
  "priorityFormats = [''yyyy-MM-dd'', ''dd-MM-yyyy'', ''dd/MM/yyyy'', ''MM/dd/yyyy'']"

definition priorityFormats_Code :: "string list" where
  "priorityFormats_Code = [''dd-MM-yyyy'', ''yyyy-MM-dd'', ''dd/MM/yyyy'', ''MM/dd/yyyy'']"

text \<open>
  What a theorem asks of \<^verbatim>\<open>localeCompare\<close> on the strings it compares: the sign of
  the result is a total, transitive relation, and two different strings do not compare
  equal.
\<close>

definition totalOn :: "('a \<Rightarrow> 'a \<Rightarrow> int) \<Rightarrow> 'a set \<Rightarrow> bool" where
  "totalOn cmp S = (\<forall>a \<in> S. \<forall>b \<in> S. cmp a b \<le> 0 \<or> cmp b a \<le> 0)"

definition transitiveOn :: "('a \<Rightarrow> 'a \<Rightarrow> int) \<Rightarrow> 'a set \<Rightarrow> bool" where
  "transitiveOn cmp S =
     (\<forall>a \<in> S. \<forall>b \<in> S. \<forall>c \<in> S. cmp a b \<le> 0 \<and> cmp b c \<le> 0 \<longrightarrow> cmp a c \<le> 0)"

definition separatingOn :: "('a \<Rightarrow> 'a \<Rightarrow> int) \<Rightarrow> 'a set \<Rightarrow> bool" where
  "separatingOn cmp S = (\<forall>a \<in> S. \<forall>b \<in> S. cmp a b = 0 \<longrightarrow> a = b)"

text \<open>
  A consistent comparator, as ECMAScript asks of the argument of \<^verbatim>\<open>sort\<close>: an
  element compares equal to itself, the sign of \<open>cmp b a\<close> is the opposite of the sign
  of \<open>cmp a b\<close>, and the order is transitive.
\<close>

definition consistentOn :: "('a \<Rightarrow> 'a \<Rightarrow> int) \<Rightarrow> 'a set \<Rightarrow> bool" where
  "consistentOn cmp S =
     ((\<forall>a \<in> S. cmp a a = 0)
      \<and> (\<forall>a \<in> S. \<forall>b \<in> S. (cmp a b < 0) = (0 < cmp b a))
      \<and> (\<forall>a \<in> S. \<forall>b \<in> S. \<forall>c \<in> S. cmp a b \<le> 0 \<and> cmp b c \<le> 0 \<longrightarrow> cmp a c \<le> 0))"

text \<open>The ISO dates of a list of items, and the sort key of an event object.\<close>

definition isoDates :: "dataItem list \<Rightarrow> string set" where
  "isoDates dataItems = set (map (\<lambda>item. orEmpty (ymd item)) dataItems)"

definition sortKey :: "eventObject \<Rightarrow> string" where
  "sortKey e = orEmpty (ymdForSort e)"

text \<open>Three rows of the catch-all bucket, the second and third on the same date.\<close>

definition specialExample :: "dataItem list" where
  "specialExample =
     [sheetItem ''Friday'' ''2024-03-15'' ''A'' (VNum (Fin 10)) ''10'',
      sheetItem ''Monday'' ''2024-03-04'' ''B'' (VNum (Fin 20)) ''20'',
      sheetItem ''Monday'' ''2024-03-04'' ''C'' (VNum (Fin 30)) ''30'']"

text \<open>
  Three rows of which the second has no sort key, between a row of 15 March and a row of
  4 March.
\<close>

definition missingKeyExample :: "dataItem list" where
  "missingKeyExample =
     [sheetItem ''Friday'' ''2024-03-15'' ''A'' (VNum (Fin 10)) ''10'',
      (sheetItem ''Monday'' [] ''B'' (VNum (Fin 20)) ''20'')\<lparr>ymd := None\<rparr>,
      sheetItem ''Monday'' ''2024-03-04'' ''C'' (VNum (Fin 30)) ''30'']"

text \<open>
  An output field in the words of the specification: the display cell of a column, the
  empty string when that cell is null or undefined (an index beyond the row reads as
  undefined).
\<close>

definition displayCellOrEmpty :: "string option list \<Rightarrow> nat \<Rightarrow> string" where
  "displayCellOrEmpty row i =
     (if i < length row then (case row ! i of None \<Rightarrow> [] | Some s \<Rightarrow> s) else [])"

text \<open>
  A bucket of one row with eleven display cells, the arrival cell null: the underlying
  date is a date value that the sheet displays as \<^verbatim>\<open>3 Mar 2024\<close>.
\<close>

definition detailExample :: "dataItem list" where
  "detailExample =
     [\<lparr>valueRow = [VStr ''Sunday'', VDate (Some 1709404200000), VStr ''A'', VNum (Fin 120)],
       displayRow =
         [Some ''Sunday'', Some ''3 Mar 2024'', Some ''A'', Some ''120'', Some ''Live'',
          Some ''Ram'', None, Some ''Evening'', Some ''Kabir'', Some ''Granth'', Some ''18:00''],
       ymd = Some ''2024-03-03''\<rparr>]"

text \<open>The sheet row of that item: its underlying values and its display values.\<close>

definition detailSheetRow :: sheetRow where
  "detailSheetRow =
     ([VStr ''Sunday'', VDate (Some 1709404200000), VStr ''A'', VNum (Fin 120)],
      [Some ''Sunday'', Some ''3 Mar 2024'', Some ''A'', Some ''120'', Some ''Live'',
       Some ''Ram'', None, Some ''Evening'', Some ''Kabir'', Some ''Granth'', Some ''18:00''])"

text \<open>
  The rows that take part in the pivot are those with a truthy \<^verbatim>\<open>ymd\<close>, each with its
  index in the bucket; a row has a location, an ISO date and a display date key.
\<close>

definition foldedRows :: "dataItem list \<Rightarrow> (nat \<times> dataItem) list" where
  "foldedRows dataItems = filter (\<lambda>ix. truthyStr (ymd (snd ix))) (indexed dataItems)"

definition rowCentre :: "nat \<times> dataItem \<Rightarrow> string" where
  "rowCentre ix = centreNameOf (fst ix) (snd ix)"

definition rowIso :: "nat \<times> dataItem \<Rightarrow> string" where
  "rowIso ix = orEmpty (ymd (snd ix))"

definition rowKey :: "platform \<Rightarrow> nat \<times> dataItem \<Rightarrow> string" where
  "rowKey P ix = datePivotKey P (rowIso ix)"

text \<open>
  First-write-wins in the words of the specification: of the rows of a list, the first
  one for each key, keys already seen excluded.
\<close>

fun firstByKey :: "('a \<Rightarrow> 'k) \<Rightarrow> 'k list \<Rightarrow> 'a list \<Rightarrow> 'a list" where
  "firstByKey key seen [] = []"
| "firstByKey key seen (x # xs) =
     (if key x \<in> set seen then firstByKey key seen xs
      else x # firstByKey key (key x # seen) xs)"

text \<open>
  The first row seen for each (location, date key) pair of a location; a date key that is
  a property name of \<^verbatim>\<open>Object.prototype\<close> never gets a cell.
\<close>

definition firstRows :: "platform \<Rightarrow> (nat \<times> dataItem) list \<Rightarrow> string \<Rightarrow> (nat \<times> dataItem) list" where
  "firstRows P rows c =
     firstByKey (rowKey P) objectPrototypeKeys (filter (\<lambda>ix. rowCentre ix = c) rows)"

definition hasNumericSangat :: "platform \<Rightarrow> nat \<times> dataItem \<Rightarrow> bool" where
  "hasNumericSangat P ix = (\<not> isNaN (numericSangat P (snd ix)))"

text \<open>The aggregate that a list of first rows stands for.\<close>

definition summarize :: "platform \<Rightarrow> (nat \<times> dataItem) list \<Rightarrow> centreData" where
  "summarize P rows =
     \<lparr>dateData = map (\<lambda>ix. (rowKey P ix, eventDetailsOf (snd ix))) rows,
      totalSangatSum =
        foldl jsAdd (Fin 0) (map (\<lambda>ix. numericSangat P (snd ix)) (filter (hasNumericSangat P) rows)),
      sangatCount = length (filter (hasNumericSangat P) rows)\<rparr>"

text \<open>The underlying ISO date of a display key: that of the first row with the key.\<close>

definition isoOfKey :: "platform \<Rightarrow> (nat \<times> dataItem) list \<Rightarrow> string \<Rightarrow> string" where
  "isoOfKey P rows k =
     (case find (\<lambda>ix. rowKey P ix = k) rows of None \<Rightarrow> [] | Some ix \<Rightarrow> rowIso ix)"

text \<open>
  The state of the pass after a list of rows: one entry per location, holding the
  aggregate of the first rows of that location, and one ISO date per display key.
\<close>

definition represents ::
  "platform \<Rightarrow> (nat \<times> dataItem) list \<Rightarrow> processedData \<times> uniqueDateInfo \<Rightarrow> bool" where
  "represents P rows st =
     (distinct (map fst (fst st))
      \<and> set (map fst (fst st)) = rowCentre ` set rows
      \<and> (\<forall>c \<in> set (map fst (fst st)). map_of (fst st) c = Some (summarize P (firstRows P rows c)))
      \<and> snd st = map (\<lambda>ix. (rowKey P ix, rowIso ix)) (firstByKey (rowKey P) objectPrototypeKeys rows)
      \<and> (\<forall>ix \<in> set rows. rowCentre ix \<notin> set objectPrototypeKeys)
      \<and> (\<forall>ix \<in> set rows. truthyStr (ymd (snd ix))))"


text \<open>A bucket that spans a year boundary, the later date first.\<close>

definition yearBoundaryExample :: "dataItem list" where
  "yearBoundaryExample =
     [sheetItem ''Sunday'' ''2024-01-02'' ''A'' (VNum (Fin 100)) ''100'',
      sheetItem ''Sunday'' ''2023-12-30'' ''A'' (VNum (Fin 200)) ''200'']"



section \<open>The date normalizer\<close>

subsection \<open>The order of the formats\<close>

lemma dateByFormat_Cons:
  "dateByFormat P tz t (firstValidFormat P tz t (f # fs)) =
     (case parseDate P t tz f of
        Inr (Some d) \<Rightarrow> Some d
      | _ \<Rightarrow> dateByFormat P tz t (firstValidFormat P tz t fs))"
  by (simp add: dateByFormat_def firstValidFormat_def yieldsValidDate_def
           split: sum.splits option.splits)

lemma dateByFormat_Nil: "dateByFormat P tz t (firstValidFormat P tz t []) = None"
  by (simp add: dateByFormat_def firstValidFormat_def)

lemma tryFormats_find:
  "tryFormats P t fs =
     dateByFormat P (scriptTimeZone P) t (firstValidFormat P (scriptTimeZone P) t fs)"
  by (induction fs)
     (simp_all add: dateByFormat_Cons dateByFormat_Nil split: sum.splits option.splits)

lemma stringDate_part000_priority:
  "stringDate_part000 P t =
     dateByFormat P (scriptTimeZone P) t
       (firstValidFormat P (scriptTimeZone P) t priorityFormats)"
proof -
  have pf: "priorityFormats = preferredFormat # alternativeFormats"
    by (simp add: priorityFormats_def preferredFormat_def alternativeFormats_def)
  have "dateByFormat P (scriptTimeZone P) t
               (firstValidFormat P (scriptTimeZone P) t priorityFormats) =
             (case parseDate P t (scriptTimeZone P) preferredFormat of
                Inr (Some d) \<Rightarrow> Some d
              | _ \<Rightarrow> tryFormats P t alternativeFormats)"
    unfolding pf dateByFormat_Cons tryFormats_find ..
  then show ?thesis
    by (simp add: stringDate_part000_def Let_def split: sum.splits option.splits)
qed

lemma dateByFormat_first_None:
  "dateByFormat P tz t (firstValidFormat P tz t fs) = None
     \<longleftrightarrow> firstValidFormat P tz t fs = None"
proof (induction fs)
  case Nil
  show ?case by (simp add: dateByFormat_def firstValidFormat_def)
next
  case (Cons f fs)
  show ?case
    unfolding dateByFormat_Cons using Cons
    by (simp add: firstValidFormat_def yieldsValidDate_def split: sum.splits option.splits)
qed

lemma parseDateValue_part000_null_iff:
  "parseDateValue_part000 P (VStr s) = Inr None \<longleftrightarrow>
     trim s = [] \<or> firstValidFormat P (scriptTimeZone P) (trim s) priorityFormats = None"
  using dateByFormat_first_None [of P "scriptTimeZone P" "trim s" priorityFormats]
  by (auto simp: parseDateValue_part000_def returnFormatted_part000_def
                 stringDate_part000_priority split: option.splits)

lemma stringDate_Code_order:
  assumes "stringDate P t = Some d"
  shows "case firstValidFormat P SCRIPT_TIMEZONE t priorityFormats_Code of
           Some f \<Rightarrow> parseDate P t SCRIPT_TIMEZONE f = Inr (Some d)
         | None \<Rightarrow> dateParse P t = Some d"
  using assms
  by (auto simp: stringDate_def firstValidFormat_def yieldsValidDate_def priorityFormats_Code_def
           split: sum.splits option.splits)

text \<open>
  Claim C1, as amended. In \<^verbatim>\<open>part_000\<close> the date taken from a string is the one of
  the first format, in the order yyyy-MM-dd, dd-MM-yyyy, dd/MM/yyyy, MM/dd/yyyy, that
  yields a valid date, and the normalizer returns null exactly when the trimmed string is
  empty or no format yields one. In \<^verbatim>\<open>Code.js\<close>, whenever the normalizer returns a
  date string for a string input, it is the formatted date of the first valid format in
  the order dd-MM-yyyy, yyyy-MM-dd, dd/MM/yyyy, MM/dd/yyyy, or of the generic parse when
  none of the four is valid.
\<close>

theorem parseDateValue_format_priority:
  "stringDate_part000 P (trim s) =
     dateByFormat P (scriptTimeZone P) (trim s)
       (firstValidFormat P (scriptTimeZone P) (trim s) priorityFormats)
   \<and> (parseDateValue_part000 P (VStr s) = Inr None \<longleftrightarrow>
        trim s = [] \<or> firstValidFormat P (scriptTimeZone P) (trim s) priorityFormats = None)
   \<and> (parseDateValue P (VStr s) = Some r \<longrightarrow>
        (\<exists>d. formatDate P d SCRIPT_TIMEZONE ''yyyy-MM-dd'' = Inr r
           \<and> (case firstValidFormat P SCRIPT_TIMEZONE (trim s) priorityFormats_Code of
                 Some f \<Rightarrow> parseDate P (trim s) SCRIPT_TIMEZONE f = Inr (Some d)
               | None \<Rightarrow> dateParse P (trim s) = Some d)))"
proof (intro conjI impI)
  show "stringDate_part000 P (trim s) =
     dateByFormat P (scriptTimeZone P) (trim s)
       (firstValidFormat P (scriptTimeZone P) (trim s) priorityFormats)"
    by (rule stringDate_part000_priority)
  show "parseDateValue_part000 P (VStr s) = Inr None \<longleftrightarrow>
        trim s = [] \<or> firstValidFormat P (scriptTimeZone P) (trim s) priorityFormats = None"
    by (rule parseDateValue_part000_null_iff)
next
  assume r: "parseDateValue P (VStr s) = Some r"
  then obtain d where d: "stringDate P (trim s) = Some d"
    and f: "formatDate P d SCRIPT_TIMEZONE ''yyyy-MM-dd'' = Inr r"
    by (auto simp: parseDateValue_def split: option.splits sum.splits if_splits)
  from stringDate_Code_order [OF d] f
  show "\<exists>d. formatDate P d SCRIPT_TIMEZONE ''yyyy-MM-dd'' = Inr r
           \<and> (case firstValidFormat P SCRIPT_TIMEZONE (trim s) priorityFormats_Code of
                 Some f \<Rightarrow> parseDate P (trim s) SCRIPT_TIMEZONE f = Inr (Some d)
               | None \<Rightarrow> dateParse P (trim s) = Some d)"
    by blast
qed

text \<open>
  The theorem at the string \<^verbatim>\<open>" 05-03-2024 "\<close> on the reference platform: yyyy-MM-dd
  throws, dd-MM-yyyy yields 5 March 2024.
\<close>

theorem parseDateValue_format_priority_witness:
  "parseDateValue refPlatform (VStr '' 05-03-2024 '') = Some ''2024-03-05''
   \<and> stringDate_part000 refPlatform ''05-03-2024'' = Some 1709577000000
   \<and> parseDateValue_part000 refPlatform (VStr '' 05-03-2024 '') \<noteq> Inr None
   \<and> (\<exists>d. formatDate refPlatform d SCRIPT_TIMEZONE ''yyyy-MM-dd'' = Inr ''2024-03-05''
         \<and> parseDate refPlatform ''05-03-2024'' SCRIPT_TIMEZONE ''dd-MM-yyyy'' = Inr (Some d))"
proof -
  have r: "parseDateValue refPlatform (VStr '' 05-03-2024 '') = Some ''2024-03-05''"
    by code_simp
  have t: "trim '' 05-03-2024 '' = ''05-03-2024''"
    by code_simp
  have f: "firstValidFormat refPlatform SCRIPT_TIMEZONE ''05-03-2024'' priorityFormats_Code
             = Some ''dd-MM-yyyy''"
    by code_simp
  have g: "firstValidFormat refPlatform (scriptTimeZone refPlatform) ''05-03-2024''
             priorityFormats = Some ''dd-MM-yyyy''"
    by code_simp
  have v: "dateByFormat refPlatform (scriptTimeZone refPlatform) ''05-03-2024''
             (Some ''dd-MM-yyyy'') = Some 1709577000000"
    by code_simp
  from parseDateValue_format_priority [of refPlatform "'' 05-03-2024 ''" "''2024-03-05''"]
  show ?thesis
    unfolding t f g v using r by simp
qed

text \<open>
  The claim as stated fails at the canonical string \<^verbatim>\<open>"2023-12-31"\<close>: yyyy-MM-dd is
  the first format of the priority list that yields a valid date, yet \<^verbatim>\<open>Code.js\<close>
  tries dd-MM-yyyy first. On the reference platform that attempt throws and the result is
  null; on the lenient platform it yields day 2023 of December of the year 31, and that
  date is the result. \<^verbatim>\<open>part_000\<close> does not return a result at all.
\<close>

theorem parseDateValue_format_priority_counterexample:
  "firstValidFormat refPlatform SCRIPT_TIMEZONE ''2023-12-31'' priorityFormats
     = Some ''yyyy-MM-dd''
   \<and> parseDate refPlatform ''2023-12-31'' SCRIPT_TIMEZONE ''dd-MM-yyyy'' = Inl PlatformError
   \<and> parseDateValue refPlatform (VStr ''2023-12-31'') = None
   \<and> firstValidFormat lenientPlatform SCRIPT_TIMEZONE ''2023-12-31'' priorityFormats
       = Some ''yyyy-MM-dd''
   \<and> parseDateValue lenientPlatform (VStr ''2023-12-31'') = Some ''0037-06-14''
   \<and> parseDateValue_part000 refPlatform (VStr ''2023-12-31'') = Inl ReferenceError"
  by code_simp

subsection \<open>Canonical strings\<close>

lemma parseDateValue_part000_never_date: "parseDateValue_part000 P v \<noteq> Inr (Some d)"
  by (auto simp: parseDateValue_part000_def returnFormatted_part000_def
           split: jsval.splits option.splits)

text \<open>
  Claim C2 fails on the code. On the reference platform the canonical string
  \<^verbatim>\<open>"2024-03-05"\<close> parses as yyyy-MM-dd and formats back to itself, but
  \<^verbatim>\<open>parseDateValue\<close> of \<^verbatim>\<open>part_000\<close> ends in a ReferenceError (for no input at all
  does it return a date string), and \<^verbatim>\<open>parseDateValue\<close> of \<^verbatim>\<open>Code.js\<close>, whose first
  attempt is dd-MM-yyyy, returns null, or on the lenient platform the date that attempt
  yields.
\<close>

theorem parseDateValue_canonical_not_identity:
  "parseDate refPlatform ''2024-03-05'' SCRIPT_TIMEZONE ''yyyy-MM-dd'' = Inr (Some 1709577000000)
   \<and> formatDate refPlatform 1709577000000 SCRIPT_TIMEZONE ''yyyy-MM-dd'' = Inr ''2024-03-05''
   \<and> parseDateValue_part000 refPlatform (VStr ''2024-03-05'') = Inl ReferenceError
   \<and> parseDateValue refPlatform (VStr ''2024-03-05'') = None
   \<and> parseDateValue lenientPlatform (VStr ''2024-03-05'') = Some ''0010-09-14''
   \<and> (\<forall>P v d. parseDateValue_part000 P v \<noteq> Inr (Some d))"
proof -
  have "parseDate refPlatform ''2024-03-05'' SCRIPT_TIMEZONE ''yyyy-MM-dd''
          = Inr (Some 1709577000000)"
    by code_simp
  moreover have "formatDate refPlatform 1709577000000 SCRIPT_TIMEZONE ''yyyy-MM-dd''
          = Inr ''2024-03-05''"
    by code_simp
  moreover have "parseDateValue_part000 refPlatform (VStr ''2024-03-05'') = Inl ReferenceError"
    by code_simp
  moreover have "parseDateValue refPlatform (VStr ''2024-03-05'') = None"
    by code_simp
  moreover have "parseDateValue lenientPlatform (VStr ''2024-03-05'') = Some ''0010-09-14''"
    by code_simp
  ultimately show ?thesis
    using parseDateValue_part000_never_date by blast
qed

subsection \<open>Serial numbers\<close>

lemma timeClip_Some_bound:
  assumes "timeClip (Fin a) = Some t"
  shows "\<bar>a\<bar> \<le> 8640000000000000"
  using assms by (simp add: timeClip_def split: if_splits)

lemma base_lower_rat:
  "- 8640000000000000 \<le> (b::int) \<Longrightarrow> - 8640000000000000 \<le> (of_int b :: rat)"
  by (metis of_int_le_iff of_int_minus of_int_numeral)

text \<open>
  Claim C4, as amended: in \<^verbatim>\<open>part_000\<close>, a positive serial number whose date
  (the epoch \<^verbatim>\<open>new Date(1899, 11, 30)\<close>, a valid time value \<open>b\<close>, plus that many
  days) is a valid date \<open>t\<close> of a local year before 1900 or after 2100 is rejected with
  null. Such a number is far below the range that line 230 would read as milliseconds.
\<close>

theorem parseDateValue_part000_implausible_year:
  assumes base: "newDateLocal P (Fin 1899) (Fin 11) (Fin 30) = Some b"
      and bvalid: "\<bar>b\<bar> \<le> 8640000000000000"
      and pos: "0 < v"
      and t: "timeClip (Fin (of_int b + v * 86400000)) = Some t"
      and yr: "getFullYear P t < 1900 \<or> 2100 < getFullYear P t"
  shows "parseDateValue_part000 P (VNum (Fin v)) = Inr None"
proof -
  have "\<bar>of_int b + v * 86400000\<bar> \<le> 8640000000000000"
    using t by (rule timeClip_Some_bound)
  then have u: "of_int b + v * 86400000 \<le> 8640000000000000"
    by (simp add: abs_le_iff)
  have "- 8640000000000000 \<le> b"
    using bvalid by (simp add: abs_le_iff)
  then have l: "- 8640000000000000 \<le> (of_int b :: rat)"
    by (rule base_lower_rat)
  have "v * 86400000 \<le> 17280000000000000"
    using u l by linarith
  then have small: "\<not> 1000000000000 < v"
    by linarith
  have range: "\<not> (v < 20000 \<and> 70000 < v)"
    by linarith
  have year: "jsLess (Fin (of_int (getFullYear P t))) (Fin 1900)
                \<or> jsLess (Fin 2100) (Fin (of_int (getFullYear P t)))"
    using yr by simp
  have t': "timeClip (Fin (of_int b + 86400000 * v)) = Some t"
    using t by (simp add: mult.commute)
  have "serialDate_part000 P (Fin v) = None"
    using range small year
    by (simp add: serialDate_part000_def base getTime_def t' Let_def)
  then show ?thesis
    using pos by (simp add: parseDateValue_part000_def returnFormatted_part000_def)
qed

text \<open>The theorem at serial number 1 on the reference platform: 31 December 1899.\<close>

theorem parseDateValue_part000_implausible_year_witness:
  "newDateLocal refPlatform (Fin 1899) (Fin 11) (Fin 30) = Some (- 2209181400000)
   \<and> timeClip (Fin (of_int (- 2209181400000) + 1 * 86400000)) = Some (- 2209095000000)
   \<and> getFullYear refPlatform (- 2209095000000) = 1899
   \<and> parseDateValue_part000 refPlatform (VNum (Fin 1)) = Inr None"
proof -
  have b: "newDateLocal refPlatform (Fin 1899) (Fin 11) (Fin 30) = Some (- 2209181400000)"
    by code_simp
  have v: "\<bar>- 2209181400000 :: int\<bar> \<le> 8640000000000000"
    by simp
  have t: "timeClip (Fin (of_int (- 2209181400000) + 1 * 86400000)) = Some (- 2209095000000)"
    by code_simp
  have y: "getFullYear refPlatform (- 2209095000000) = 1899"
    by code_simp
  have y': "getFullYear refPlatform (- 2209095000000) < 1900
              \<or> 2100 < getFullYear refPlatform (- 2209095000000)"
    unfolding y by simp
  have p: "(0::rat) < 1"
    by simp
  from parseDateValue_part000_implausible_year [OF b v p t y'] b t y
  show ?thesis by blast
qed

text \<open>
  The claim as stated fails for \<^verbatim>\<open>Code.js\<close>, which has no check of the year: on the
  reference platform serial number 1 resolves to a date of the year 1899 and is returned
  as \<^verbatim>\<open>"1899-12-31"\<close>.
\<close>

theorem parseDateValue_implausible_year_counterexample:
  "serialDate refPlatform (Fin 1) = Some (- 2209075200000)
   \<and> getFullYear refPlatform (- 2209075200000) = 1899
   \<and> parseDateValue refPlatform (VNum (Fin 1)) = Some ''1899-12-31''"
  by code_simp

subsection \<open>The first pass\<close>

lemma validDataItems_append:
  "validDataItems P (rows1 @ rows2) = validDataItems P rows1 @ validDataItems P rows2"
  by (induction rows1) (auto split: option.splits)

lemma validDataItems_part000_append:
  "validDataItems_part000 P (rows1 @ rows2) =
     (case validDataItems_part000 P rows1 of
        Inl e \<Rightarrow> Inl e
      | Inr items1 \<Rightarrow>
          (case validDataItems_part000 P rows2 of
             Inl e \<Rightarrow> Inl e
           | Inr items2 \<Rightarrow> Inr (items1 @ items2)))"
  by (induction rows1) (auto split: sum.splits option.splits)

lemma validDataItems_truthy:
  "item \<in> set (validDataItems P rows) \<Longrightarrow> truthyStr (ymd item)"
  by (induction rows) (auto simp: truthyStr_def split: option.splits if_splits)

lemma validDataItems_skip:
  assumes "parseDateValue P (valueAt (fst row) (COL_DATE - 1)) = None"
  shows "validDataItems P (before @ row # after) = validDataItems P before @ validDataItems P after"
  using assms by (simp add: validDataItems_append)

lemma validDataItems_part000_skip:
  assumes "parseDateValue_part000 P (valueAt (fst row) (COL_DATE - 1)) = Inr None"
  shows "validDataItems_part000 P (before @ row # after) =
           validDataItems_part000 P (before @ after)"
  using assms by (simp add: validDataItems_part000_append split: sum.splits)

subsection \<open>An invalid calendar date\<close>

lemma not_yieldsValidDate:
  "(\<forall>f \<in> set fs. \<not> yieldsValidDate P tz t f) \<longleftrightarrow> firstValidFormat P tz t fs = None"
  by (auto simp: firstValidFormat_def find_None_iff)

lemma stringDate_all_fail:
  assumes "\<forall>f \<in> set priorityFormats. \<not> yieldsValidDate P SCRIPT_TIMEZONE t f"
      and "dateParse P t = None"
  shows "stringDate P t = None"
  using assms
  by (simp add: stringDate_def priorityFormats_def yieldsValidDate_def
           split: sum.splits option.splits)

text \<open>
  Claim C5, as amended. The script has no calendar of its own: whether
  \<^verbatim>\<open>"31/02/2024"\<close> is a date is decided by the platform's parser alone.
  \<^verbatim>\<open>part_000\<close> returns null for it exactly when none of the four formats yields a
  valid date; \<^verbatim>\<open>Code.js\<close> returns null for it when none of the four formats yields
  a valid date and \<^verbatim>\<open>new Date("31/02/2024")\<close> is invalid as well; and a row whose
  date cell holds the string and is normalized to null contributes no item to the first
  pass.
\<close>

theorem parseDateValue_invalid_calendar_date:
  "(parseDateValue_part000 P (VStr ''31/02/2024'') = Inr None \<longleftrightarrow>
      (\<forall>f \<in> set priorityFormats.
         \<not> yieldsValidDate P (scriptTimeZone P) ''31/02/2024'' f))
   \<and> ((\<forall>f \<in> set priorityFormats. \<not> yieldsValidDate P SCRIPT_TIMEZONE ''31/02/2024'' f)
        \<and> dateParse P ''31/02/2024'' = None \<longrightarrow>
        parseDateValue P (VStr ''31/02/2024'') = None)
   \<and> (valueAt (fst row) (COL_DATE - 1) = VStr ''31/02/2024''
        \<and> parseDateValue P (VStr ''31/02/2024'') = None \<longrightarrow>
        validDataItems P (before @ row # after)
          = validDataItems P before @ validDataItems P after)
   \<and> (valueAt (fst row) (COL_DATE - 1) = VStr ''31/02/2024''
        \<and> parseDateValue_part000 P (VStr ''31/02/2024'') = Inr None \<longrightarrow>
        validDataItems_part000 P (before @ row # after)
          = validDataItems_part000 P (before @ after))"
proof -
  have t: "trim ''31/02/2024'' = ''31/02/2024''"
    by code_simp
  have 1: "parseDateValue_part000 P (VStr ''31/02/2024'') = Inr None \<longleftrightarrow>
      (\<forall>f \<in> set priorityFormats.
         \<not> yieldsValidDate P (scriptTimeZone P) ''31/02/2024'' f)"
    unfolding not_yieldsValidDate
    using parseDateValue_part000_null_iff [of P "''31/02/2024''"] by (simp add: t)
  have 2: "(\<forall>f \<in> set priorityFormats. \<not> yieldsValidDate P SCRIPT_TIMEZONE ''31/02/2024'' f)
        \<and> dateParse P ''31/02/2024'' = None \<longrightarrow>
        parseDateValue P (VStr ''31/02/2024'') = None"
  proof
    assume "(\<forall>f \<in> set priorityFormats. \<not> yieldsValidDate P SCRIPT_TIMEZONE ''31/02/2024'' f)
        \<and> dateParse P ''31/02/2024'' = None"
    then have "stringDate P ''31/02/2024'' = None"
      using stringDate_all_fail by blast
    then show "parseDateValue P (VStr ''31/02/2024'') = None"
      by (simp add: parseDateValue_def t)
  qed
  have 3: "valueAt (fst row) (COL_DATE - 1) = VStr ''31/02/2024''
        \<and> parseDateValue P (VStr ''31/02/2024'') = None \<longrightarrow>
        validDataItems P (before @ row # after)
          = validDataItems P before @ validDataItems P after"
    by (simp add: validDataItems_skip)
  have 4: "valueAt (fst row) (COL_DATE - 1) = VStr ''31/02/2024''
        \<and> parseDateValue_part000 P (VStr ''31/02/2024'') = Inr None \<longrightarrow>
        validDataItems_part000 P (before @ row # after)
          = validDataItems_part000 P (before @ after)"
    by (simp add: validDataItems_part000_skip)
  from 1 2 3 4 show ?thesis
    by (intro conjI)
qed

text \<open>
  The reference platform rejects the string under every format, so both normalizers
  return null; of a sheet of two rows only the second, dated \<^verbatim>\<open>"05-03-2024"\<close>,
  becomes an item.
\<close>

theorem parseDateValue_invalid_calendar_date_witness:
  "parseDateValue_part000 refPlatform (VStr ''31/02/2024'') = Inr None
   \<and> parseDateValue refPlatform (VStr ''31/02/2024'') = None
   \<and> parseDate refPlatform ''31/02/2024'' SCRIPT_TIMEZONE ''dd/MM/yyyy'' = Inl PlatformError
   \<and> map ymd (validDataItems refPlatform
                  [([VStr ''Sunday'', VStr ''31/02/2024'', VStr ''A''], []),
                   ([VStr ''Sunday'', VStr ''05-03-2024'', VStr ''A''], [])])
       = [Some ''2024-03-05'']"
proof -
  let ?row = "([VStr ''Sunday'', VStr ''31/02/2024'', VStr ''A''], []) :: sheetRow"
  let ?next = "([VStr ''Sunday'', VStr ''05-03-2024'', VStr ''A''], []) :: sheetRow"
  note th = parseDateValue_invalid_calendar_date [of refPlatform ?row "[]" "[?next]"]
  have a: "\<forall>f \<in> set priorityFormats.
             \<not> yieldsValidDate refPlatform (scriptTimeZone refPlatform) ''31/02/2024'' f"
    by code_simp
  have b: "\<forall>f \<in> set priorityFormats.
             \<not> yieldsValidDate refPlatform SCRIPT_TIMEZONE ''31/02/2024'' f"
    by code_simp
  have c: "dateParse refPlatform ''31/02/2024'' = None"
    by code_simp
  have d: "parseDate refPlatform ''31/02/2024'' SCRIPT_TIMEZONE ''dd/MM/yyyy''
             = Inl PlatformError"
    by code_simp
  have cell: "valueAt (fst ?row) (COL_DATE - 1) = VStr ''31/02/2024''"
    by code_simp
  have rest: "map ymd (validDataItems refPlatform [?next]) = [Some ''2024-03-05'']"
    by code_simp
  have p: "parseDateValue_part000 refPlatform (VStr ''31/02/2024'') = Inr None"
    using th [THEN conjunct1] a by blast
  have q: "parseDateValue refPlatform (VStr ''31/02/2024'') = None"
    using th [THEN conjunct2, THEN conjunct1] b c by blast
  have "validDataItems refPlatform ([] @ ?row # [?next])
          = validDataItems refPlatform [] @ validDataItems refPlatform [?next]"
    using th [THEN conjunct2, THEN conjunct2, THEN conjunct1] cell q by blast
  then have "map ymd (validDataItems refPlatform [?row, ?next]) = [Some ''2024-03-05'']"
    using rest by simp
  with p q d show ?thesis
    by (intro conjI)
qed

text \<open>
  The claim as stated fails on a platform whose parser is lenient: there the attempt
  dd/MM/yyyy on \<^verbatim>\<open>"31/02/2024"\<close> does not fail, it yields 2 March 2024, and
  \<^verbatim>\<open>part_000\<close>, which reaches that attempt, does not return null (it ends in the
  ReferenceError of its last block). \<^verbatim>\<open>Code.js\<close> returns null there only because
  its first attempt, dd-MM-yyyy, has thrown, which ends its chain; the attempt dd/MM/yyyy
  is not made.
\<close>

theorem parseDateValue_invalid_calendar_date_counterexample:
  "yieldsValidDate lenientPlatform (scriptTimeZone lenientPlatform) ''31/02/2024'' ''dd/MM/yyyy''
   \<and> parseDate lenientPlatform ''31/02/2024'' SCRIPT_TIMEZONE ''dd/MM/yyyy''
       = Inr (Some 1709317800000)
   \<and> formatDate lenientPlatform 1709317800000 SCRIPT_TIMEZONE ''yyyy-MM-dd'' = Inr ''2024-03-02''
   \<and> parseDateValue_part000 lenientPlatform (VStr ''31/02/2024'') = Inl ReferenceError
   \<and> parseDate lenientPlatform ''31/02/2024'' SCRIPT_TIMEZONE ''dd-MM-yyyy'' = Inl PlatformError
   \<and> parseDateValue lenientPlatform (VStr ''31/02/2024'') = None"
  by code_simp

section \<open>Sorting with a comparator\<close>

lemma set_insertBy [simp]: "set (insertBy cmp x ys) = insert x (set ys)"
  by (induction ys) auto

lemma mset_insertBy [simp]: "mset (insertBy cmp x ys) = add_mset x (mset ys)"
  by (induction ys) auto

lemma jsSort_Nil [simp]: "jsSort cmp [] = []"
  by (simp add: jsSort_def)

lemma jsSort_Cons: "jsSort cmp (x # xs) = insertBy cmp x (jsSort cmp xs)"
  by (simp add: jsSort_def)

lemma mset_jsSort [simp]: "mset (jsSort cmp xs) = mset xs"
  by (induction xs) (simp_all add: jsSort_Cons)

lemma set_jsSort [simp]: "set (jsSort cmp xs) = set xs"
  by (induction xs) (simp_all add: jsSort_Cons)

lemma length_jsSort [simp]: "length (jsSort cmp xs) = length xs"
  by (metis mset_jsSort size_mset)

lemma distinct_jsSort [simp]: "distinct (jsSort cmp xs) = distinct xs"
  by (metis mset_jsSort distinct_count_atmost_1 set_mset_mset)

lemma sorted_insertBy:
  assumes "totalOn cmp S" "transitiveOn cmp S" "x \<in> S" "set ys \<subseteq> S"
      and "sorted_wrt (\<lambda>a b. cmp a b \<le> 0) ys"
  shows "sorted_wrt (\<lambda>a b. cmp a b \<le> 0) (insertBy cmp x ys)"
  using assms(4,5)
proof (induction ys)
  case Nil
  show ?case by simp
next
  case (Cons y ys)
  show ?case
  proof (cases "cmp x y \<le> 0")
    case True
    have "\<forall>z \<in> set ys. cmp x z \<le> 0"
    proof
      fix z assume z: "z \<in> set ys"
      with Cons.prems have "cmp y z \<le> 0" by simp
      with True assms(2,3) Cons.prems(1) z show "cmp x z \<le> 0"
        unfolding transitiveOn_def by (meson list.set_intros subsetD)
    qed
    with True Cons.prems show ?thesis by simp
  next
    case False
    with assms(1,3) Cons.prems(1) have "cmp y x \<le> 0"
      unfolding totalOn_def by (meson list.set_intros(1) subsetD)
    with False Cons show ?thesis by auto
  qed
qed

lemma sorted_jsSort:
  assumes "totalOn cmp S" "transitiveOn cmp S" "set xs \<subseteq> S"
  shows "sorted_wrt (\<lambda>a b. cmp a b \<le> 0) (jsSort cmp xs)"
  using assms(3)
proof (induction xs)
  case Nil
  show ?case by simp
next
  case (Cons x xs)
  then show ?case
    using sorted_insertBy [OF assms(1,2), of x "jsSort cmp xs"]
    by (simp add: jsSort_Cons)
qed

lemma filter_insertBy:
  assumes "\<forall>y \<in> set ys. Q x \<and> Q y \<longrightarrow> cmp x y \<le> 0"
  shows "filter Q (insertBy cmp x ys) = (if Q x then x # filter Q ys else filter Q ys)"
  using assms by (induction ys) auto

lemma filter_jsSort:
  assumes "\<forall>x \<in> set xs. \<forall>y \<in> set xs. Q x \<and> Q y \<longrightarrow> cmp x y \<le> 0"
  shows "filter Q (jsSort cmp xs) = filter Q xs"
  using assms
proof (induction xs)
  case Nil
  show ?case by simp
next
  case (Cons x xs)
  have "\<forall>y \<in> set (jsSort cmp xs). Q x \<and> Q y \<longrightarrow> cmp x y \<le> 0"
    using Cons.prems by simp
  then have "filter Q (insertBy cmp x (jsSort cmp xs)) =
               (if Q x then x # filter Q (jsSort cmp xs) else filter Q (jsSort cmp xs))"
    by (rule filter_insertBy)
  moreover have "filter Q (jsSort cmp xs) = filter Q xs"
    using Cons by simp
  ultimately show ?case by (simp add: jsSort_Cons)
qed

subsection \<open>A consistent comparator determines the result\<close>

lemma consistentOn_total: "consistentOn cmp S \<Longrightarrow> totalOn cmp S"
  unfolding consistentOn_def totalOn_def
  by (metis not_le_imp_less order_less_imp_le)

lemma consistentOn_transitive: "consistentOn cmp S \<Longrightarrow> transitiveOn cmp S"
  unfolding consistentOn_def transitiveOn_def by blast

lemma consistentOn_equal:
  assumes "consistentOn cmp S" "a \<in> S" "b \<in> S" "cmp a b \<le> 0" "cmp b a \<le> 0"
  shows "cmp a b = 0"
proof (rule ccontr)
  assume "cmp a b \<noteq> 0"
  with assms(4) have "cmp a b < 0" by simp
  with assms(1-3) have "0 < cmp b a"
    unfolding consistentOn_def by blast
  with assms(5) show False by simp
qed

lemma consistentOn_symmetric:
  assumes "consistentOn cmp S" "a \<in> S" "b \<in> S" "cmp a b = 0"
  shows "cmp b a = 0"
proof -
  have "\<not> cmp b a < 0" "\<not> 0 < cmp b a"
    using assms unfolding consistentOn_def by (metis less_irrefl)+
  then show ?thesis by simp
qed

lemma sorted_stable_equal:
  assumes cons: "consistentOn cmp S"
  shows "set ys \<subseteq> S \<Longrightarrow> mset ys = mset zs
         \<Longrightarrow> sorted_wrt (\<lambda>a b. cmp a b \<le> 0) ys \<Longrightarrow> sorted_wrt (\<lambda>a b. cmp a b \<le> 0) zs
         \<Longrightarrow> \<forall>x \<in> S. filter (\<lambda>y. cmp x y = 0) ys = filter (\<lambda>y. cmp x y = 0) zs
         \<Longrightarrow> ys = zs"
proof (induction ys arbitrary: zs)
  case Nil
  then show ?case by simp
next
  case (Cons y ys)
  from Cons.prems(2) obtain z zs' where zs: "zs = z # zs'"
    by (cases zs) auto
  have sets: "set (y # ys) = set (z # zs')"
    using Cons.prems(2) zs by (metis mset_eq_setD)
  have yS: "y \<in> S" and zS: "z \<in> S"
    using Cons.prems(1) sets by auto
  have refl: "cmp y y = 0" "cmp z z = 0"
    using cons yS zS unfolding consistentOn_def by blast+
  have "z \<in> set (y # ys)"
    using sets by (metis list.set_intros(1))
  then have yz: "cmp y z \<le> 0"
    using Cons.prems(3) refl by auto
  have "y \<in> set (z # zs')"
    using sets by (metis list.set_intros(1))
  then have zy: "cmp z y \<le> 0"
    using Cons.prems(4) zs refl by auto
  have eq: "cmp y z = 0"
    using consistentOn_equal [OF cons yS zS yz zy] .
  have "filter (\<lambda>w. cmp y w = 0) (y # ys) = filter (\<lambda>w. cmp y w = 0) (z # zs')"
    using Cons.prems(5) yS zs by blast
  then have head: "y = z"
    using refl eq by simp
  have tails: "\<forall>x \<in> S. filter (\<lambda>w. cmp x w = 0) ys = filter (\<lambda>w. cmp x w = 0) zs'"
  proof
    fix x assume "x \<in> S"
    with Cons.prems(5) zs head
    have "filter (\<lambda>w. cmp x w = 0) (y # ys) = filter (\<lambda>w. cmp x w = 0) (y # zs')"
      by blast
    then show "filter (\<lambda>w. cmp x w = 0) ys = filter (\<lambda>w. cmp x w = 0) zs'"
      by (cases "cmp x y = 0") simp_all
  qed
  have "ys = zs'"
  proof (rule Cons.IH)
    show "set ys \<subseteq> S" using Cons.prems(1) by simp
    show "mset ys = mset zs'" using Cons.prems(2) zs head by simp
    show "sorted_wrt (\<lambda>a b. cmp a b \<le> 0) ys" using Cons.prems(3) by simp
    show "sorted_wrt (\<lambda>a b. cmp a b \<le> 0) zs'" using Cons.prems(4) zs by simp
    show "\<forall>x \<in> S. filter (\<lambda>w. cmp x w = 0) ys = filter (\<lambda>w. cmp x w = 0) zs'"
      by (rule tails)
  qed
  with head zs show ?case by simp
qed

text \<open>
  What the language promises of \<^verbatim>\<open>sort\<close> for a consistent comparator, that the
  result is a rearrangement of the input, sorted, with elements that compare equal in
  their input order, is met by one list only, and \<open>jsSort\<close> returns it.
\<close>

lemma stable_sort_unique:
  assumes cons: "consistentOn cmp (set xs)"
      and perm: "mset ys = mset xs"
      and sorted: "sorted_wrt (\<lambda>a b. cmp a b \<le> 0) ys"
      and stable: "\<forall>x \<in> set xs. filter (\<lambda>y. cmp x y = 0) ys = filter (\<lambda>y. cmp x y = 0) xs"
  shows "ys = jsSort cmp xs"
proof (rule sorted_stable_equal [OF cons])
  show "set ys \<subseteq> set xs"
    using perm by (metis mset_eq_setD order_refl)
  show "mset ys = mset (jsSort cmp xs)"
    using perm by simp
  show "sorted_wrt (\<lambda>a b. cmp a b \<le> 0) ys"
    by (rule sorted)
  show "sorted_wrt (\<lambda>a b. cmp a b \<le> 0) (jsSort cmp xs)"
    using sorted_jsSort [OF consistentOn_total [OF cons] consistentOn_transitive [OF cons]]
    by simp
  show "\<forall>x \<in> set xs. filter (\<lambda>y. cmp x y = 0) ys = filter (\<lambda>y. cmp x y = 0) (jsSort cmp xs)"
  proof
    fix x assume x: "x \<in> set xs"
    have "\<forall>a \<in> set xs. \<forall>b \<in> set xs. cmp x a = 0 \<and> cmp x b = 0 \<longrightarrow> cmp a b \<le> 0"
    proof (intro ballI impI)
      fix a b assume a: "a \<in> set xs" and b: "b \<in> set xs"
        and e: "cmp x a = 0 \<and> cmp x b = 0"
      have "cmp a x = 0"
        using consistentOn_symmetric [OF cons x a] e by simp
      then have "cmp a x \<le> 0 \<and> cmp x b \<le> 0"
        using e by simp
      then show "cmp a b \<le> 0"
        using cons a x b unfolding consistentOn_def by blast
    qed
    then have "filter (\<lambda>y. cmp x y = 0) (jsSort cmp xs) = filter (\<lambda>y. cmp x y = 0) xs"
      by (rule filter_jsSort)
    with stable x show "filter (\<lambda>y. cmp x y = 0) ys = filter (\<lambda>y. cmp x y = 0) (jsSort cmp xs)"
      by simp
  qed
qed

text \<open>
  Three distinct elements: an order that keeps \<open>a\<close> before \<open>b\<close> and \<open>b\<close> before
  \<open>c\<close> keeps \<open>a\<close> before \<open>c\<close>.
\<close>

lemma order_between:
  assumes d: "distinct [a, b, c]"
      and perm: "mset ys = mset [a, b, c]"
      and ab: "filter (\<lambda>e. e = a \<or> e = b) ys = [a, b]"
      and bc: "filter (\<lambda>e. e = b \<or> e = c) ys = [b, c]"
  shows "filter (\<lambda>e. e = a \<or> e = c) ys = [a, c]"
proof -
  from perm have "length ys = 3"
    by (metis length_Cons list.size(3) numeral_3_eq_3 size_mset)
  then obtain p q r where ys: "ys = [p, q, r]"
    by (metis length_0_conv length_Suc_conv numeral_3_eq_3)
  have s: "set ys = {a, b, c}"
    using perm by (metis mset_eq_setD list.simps(15) empty_set)
  have dy: "distinct ys"
    using perm d by (metis mset_eq_imp_distinct_iff)
  show ?thesis
    using ab bc s dy d unfolding ys
    by (auto split: if_splits)
qed


section \<open>The pivot of an empty bucket\<close>

lemma canonicalRows_no_data:
  assumes "\<forall>c \<in> set cs. c \<notin> set objectPrototypeKeys"
  shows "canonicalRows P [] [] cs =
           Inr (map (\<lambda>c. \<lparr>centre = c, isBold = (c \<in> set boldCentres), rowDateData = Some [],
                             averageSangat = ''N/A'', isMissingData = False\<rparr>) cs)"
  using assms by (induction cs) (simp_all add: canonicalRow_def)

lemma customCentreOrder_not_inherited:
  "\<forall>c \<in> set customCentreOrder. c \<notin> set objectPrototypeKeys"
  by (simp add: customCentreOrder_def objectPrototypeKeys_def)

lemma sortDateKeys_Nil: "sortDateKeys P [] = []"
  by (simp add: sortDateKeys_def objectKeys_def jsSort_def)

lemma remainingCentres_Nil: "remainingCentres P [] cs = []"
  by (simp add: remainingCentres_def objectKeys_def jsSort_def)


text \<open>
  Claim C8, for \<^verbatim>\<open>processAndSortData\<close> of \<^verbatim>\<open>Code.js\<close>: on an empty bucket the
  call with \<open>isSundayData = true\<close> emits one row per centre of
  \<^verbatim>\<open>customCentreOrder\<close>, in that order, each with no cells, average \<^verbatim>\<open>"N/A"\<close> and
  not flagged, and no sorted date; the call with \<open>isSundayData = false\<close> returns an
  empty \<^verbatim>\<open>templateData\<close> and empty \<^verbatim>\<open>sortedDates\<close>.
\<close>

theorem processAndSortData_empty_bucket:
  "processAndSortData P [] selectedMonth True =
     Inr \<lparr>templateData =
            map (\<lambda>c. \<lparr>centre = c, isBold = (c \<in> set boldCentres), rowDateData = Some [],
                       averageSangat = ''N/A'', isMissingData = False\<rparr>) customCentreOrder,
          sortedDates = []\<rparr>
   \<and> processAndSortData P [] selectedMonth False = Inr \<lparr>templateData = [], sortedDates = []\<rparr>"
  by (simp add: processAndSortData_def indexed_def sortDateKeys_Nil remainingCentres_Nil
        canonicalRows_no_data [OF customCentreOrder_not_inherited])

section \<open>The list of special events\<close>

lemma compareEvents_truthy:
  "truthyStr (ymdForSort a) \<Longrightarrow> truthyStr (ymdForSort b) \<Longrightarrow>
     compareEvents P a b = localeCompare P (sortKey a) (sortKey b)"
  by (simp add: compareEvents_def sortKey_def)

lemma sortKey_eventObjectOf: "sortKey (eventObjectOf item) = orEmpty (ymd item)"
  by (simp add: sortKey_def eventObjectOf_def)

lemma ymdForSort_eventObjectOf: "ymdForSort (eventObjectOf item) = ymd item"
  by (simp add: eventObjectOf_def)

text \<open>
  When every row has a sort key, the comparator of the list is \<^verbatim>\<open>localeCompare\<close> on
  the keys, and it is consistent on the event objects when \<^verbatim>\<open>localeCompare\<close> is
  consistent on the keys.
\<close>

lemma compareEvents_keys:
  assumes truthy: "\<forall>item \<in> set dataItems. truthyStr (ymd item)"
      and a: "a \<in> set (map eventObjectOf dataItems)"
      and b: "b \<in> set (map eventObjectOf dataItems)"
  shows "compareEvents P a b = localeCompare P (sortKey a) (sortKey b)"
    and "sortKey a \<in> isoDates dataItems"
  using assms
  by (auto simp: isoDates_def sortKey_eventObjectOf ymdForSort_eventObjectOf compareEvents_truthy)

lemma compareEvents_consistent:
  assumes truthy: "\<forall>item \<in> set dataItems. truthyStr (ymd item)"
      and cons: "consistentOn (localeCompare P) (isoDates dataItems)"
  shows "consistentOn (compareEvents P) (set (map eventObjectOf dataItems))"
proof -
  let ?E = "set (map eventObjectOf dataItems)"
  note k = compareEvents_keys [OF truthy]
  have 1: "\<forall>a \<in> ?E. compareEvents P a a = 0"
  proof
    fix a assume a: "a \<in> ?E"
    from k(1) [OF a a] k(2) [OF a a] cons show "compareEvents P a a = 0"
      unfolding consistentOn_def by simp
  qed
  have 2: "\<forall>a \<in> ?E. \<forall>b \<in> ?E. (compareEvents P a b < 0) = (0 < compareEvents P b a)"
  proof (intro ballI)
    fix a b assume a: "a \<in> ?E" and b: "b \<in> ?E"
    from k(1) [OF a b] k(1) [OF b a] k(2) [OF a a] k(2) [OF b b] cons
    show "(compareEvents P a b < 0) = (0 < compareEvents P b a)"
      unfolding consistentOn_def by simp
  qed
  have 3: "\<forall>a \<in> ?E. \<forall>b \<in> ?E. \<forall>c \<in> ?E.
             compareEvents P a b \<le> 0 \<and> compareEvents P b c \<le> 0 \<longrightarrow> compareEvents P a c \<le> 0"
  proof (intro ballI impI)
    fix a b c assume a: "a \<in> ?E" and b: "b \<in> ?E" and c: "c \<in> ?E"
      and le: "compareEvents P a b \<le> 0 \<and> compareEvents P b c \<le> 0"
    from le k(1) [OF a b] k(1) [OF b c]
    have "localeCompare P (sortKey a) (sortKey b) \<le> 0
          \<and> localeCompare P (sortKey b) (sortKey c) \<le> 0"
      by simp
    with k(2) [OF a a] k(2) [OF b b] k(2) [OF c c] cons
    have "localeCompare P (sortKey a) (sortKey c) \<le> 0"
      unfolding consistentOn_def by blast
    with k(1) [OF a c] show "compareEvents P a c \<le> 0"
      by simp
  qed
  from 1 2 3 show ?thesis
    unfolding consistentOn_def by (intro conjI)
qed

lemma special_sorted:
  assumes truthy: "\<forall>item \<in> set dataItems. truthyStr (ymd item)"
      and cons: "consistentOn (localeCompare P) (isoDates dataItems)"
  shows "sorted_wrt (\<lambda>a b. localeCompare P (sortKey a) (sortKey b) \<le> 0)
           (processSpecialSatsangList P dataItems)"
proof -
  let ?E = "set (map eventObjectOf dataItems)"
  note c = compareEvents_consistent [OF truthy cons]
  have "sorted_wrt (\<lambda>a b. compareEvents P a b \<le> 0)
          (jsSort (compareEvents P) (map eventObjectOf dataItems))"
    using sorted_jsSort [OF consistentOn_total [OF c] consistentOn_transitive [OF c]] by simp
  then have "sorted_wrt (\<lambda>a b. localeCompare P (sortKey a) (sortKey b) \<le> 0)
          (jsSort (compareEvents P) (map eventObjectOf dataItems))"
    by (rule sorted_wrt_mono_rel [rotated]) (simp add: compareEvents_keys(1) [OF truthy])
  then show ?thesis
    by (simp add: processSpecialSatsangList_def)
qed

lemma special_stable:
  assumes truthy: "\<forall>item \<in> set dataItems. truthyStr (ymd item)"
      and cons: "consistentOn (localeCompare P) (isoDates dataItems)"
      and tie: "ymdForSort a = ymdForSort b"
  shows "filter (\<lambda>e. e = a \<or> e = b) (processSpecialSatsangList P dataItems) =
         filter (\<lambda>e. e = a \<or> e = b) (map eventObjectOf dataItems)"
proof -
  let ?E = "set (map eventObjectOf dataItems)"
  have self: "\<And>e. e \<in> ?E \<Longrightarrow> compareEvents P e e = 0"
    using compareEvents_consistent [OF truthy cons] unfolding consistentOn_def by blast
  have "\<forall>x \<in> ?E. \<forall>y \<in> ?E. (x = a \<or> x = b) \<and> (y = a \<or> y = b) \<longrightarrow> compareEvents P x y \<le> 0"
  proof (intro ballI impI)
    fix x y assume x: "x \<in> ?E" and y: "y \<in> ?E"
      and xy: "(x = a \<or> x = b) \<and> (y = a \<or> y = b)"
    with tie have "ymdForSort x = ymdForSort y" by auto
    then have "compareEvents P x y = compareEvents P x x"
      by (simp add: compareEvents_def)
    with self x show "compareEvents P x y \<le> 0" by simp
  qed
  then have "filter (\<lambda>e. e = a \<or> e = b) (jsSort (compareEvents P) (map eventObjectOf dataItems))
               = filter (\<lambda>e. e = a \<or> e = b) (map eventObjectOf dataItems)"
    by (rule filter_jsSort)
  then show ?thesis
    by (simp add: processSpecialSatsangList_def)
qed

lemma special_mset:
  "mset (processSpecialSatsangList P dataItems) = mset (map eventObjectOf dataItems)"
  by (simp add: processSpecialSatsangList_def)

text \<open>
  With every key present the output does not depend on how \<^verbatim>\<open>sort\<close> is
  implemented: any rearrangement of the event objects that is sorted by the comparator
  and keeps objects that compare equal in their input order is the output.
\<close>

lemma special_determined:
  assumes truthy: "\<forall>item \<in> set dataItems. truthyStr (ymd item)"
      and cons: "consistentOn (localeCompare P) (isoDates dataItems)"
      and perm: "mset ys = mset (map eventObjectOf dataItems)"
      and sorted: "sorted_wrt (\<lambda>a b. compareEvents P a b \<le> 0) ys"
      and stable: "\<forall>x \<in> set (map eventObjectOf dataItems).
                     filter (\<lambda>y. compareEvents P x y = 0) ys
                     = filter (\<lambda>y. compareEvents P x y = 0) (map eventObjectOf dataItems)"
  shows "ys = processSpecialSatsangList P dataItems"
proof -
  have "ys = jsSort (compareEvents P) (map eventObjectOf dataItems)"
    using compareEvents_consistent [OF truthy cons] perm sorted stable
    by (rule stable_sort_unique)
  then show ?thesis
    by (cases dataItems) (simp_all add: processSpecialSatsangList_def)
qed

text \<open>
  Claim C9, as amended. The list builder returns the event objects of the input rows,
  rearranged (the same objects with the same multiplicities). When every row has a sort
  key, as every row that the first pass lets through has, and \<^verbatim>\<open>localeCompare\<close> is
  a consistent order on the keys, the output is ascending by ISO date and two rows with
  equal sort keys keep their relative input order: the sublist of the occurrences of the
  two is the same in the output as in the input.
\<close>

theorem processSpecialSatsangList_sorted_stable:
  assumes keys: "\<forall>item \<in> set dataItems. truthyStr (ymd item)"
      and cons: "consistentOn (localeCompare P) (isoDates dataItems)"
  shows "mset (processSpecialSatsangList P dataItems) = mset (map eventObjectOf dataItems)
         \<and> sorted_wrt (\<lambda>a b. localeCompare P (sortKey a) (sortKey b) \<le> 0)
              (processSpecialSatsangList P dataItems)
         \<and> (ymdForSort a = ymdForSort b \<longrightarrow>
              filter (\<lambda>e. e = a \<or> e = b) (processSpecialSatsangList P dataItems) =
              filter (\<lambda>e. e = a \<or> e = b) (map eventObjectOf dataItems))"
  using special_mset special_sorted [OF keys cons] special_stable [OF keys cons]
  by (intro conjI impI) blast+

text \<open>
  The theorem on three rows of the reference platform: the Friday row moves behind the
  two Monday rows, which keep their order.
\<close>

theorem processSpecialSatsangList_sorted_stable_witness:
  "map (\<lambda>e. map_of (headerFields e) ''centre'') (processSpecialSatsangList refPlatform specialExample)
     = [Some ''B'', Some ''C'', Some ''A'']
   \<and> sorted_wrt (\<lambda>a b. localeCompare refPlatform (sortKey a) (sortKey b) \<le> 0)
        (processSpecialSatsangList refPlatform specialExample)
   \<and> filter (\<lambda>e. e = eventObjectOf (specialExample ! 1) \<or> e = eventObjectOf (specialExample ! 2))
        (processSpecialSatsangList refPlatform specialExample)
      = [eventObjectOf (specialExample ! 1), eventObjectOf (specialExample ! 2)]"
proof -
  have o: "map (\<lambda>e. map_of (headerFields e) ''centre'')
             (processSpecialSatsangList refPlatform specialExample)
           = [Some ''B'', Some ''C'', Some ''A'']"
    by code_simp
  have h1: "\<forall>item \<in> set specialExample. truthyStr (ymd item)"
    by code_simp
  have h2: "consistentOn (localeCompare refPlatform) (isoDates specialExample)"
    by code_simp
  have h5: "ymdForSort (eventObjectOf (specialExample ! 1))
              = ymdForSort (eventObjectOf (specialExample ! 2))"
    by code_simp
  have f: "filter (\<lambda>e. e = eventObjectOf (specialExample ! 1) \<or> e = eventObjectOf (specialExample ! 2))
             (map eventObjectOf specialExample)
           = [eventObjectOf (specialExample ! 1), eventObjectOf (specialExample ! 2)]"
    by code_simp
  from processSpecialSatsangList_sorted_stable
         [OF h1 h2, of "eventObjectOf (specialExample ! 1)"
             "eventObjectOf (specialExample ! 2)"]
       h5 o f
  show ?thesis by simp
qed

text \<open>
  The claim as stated fails when a sort key is missing. In the list below the row
  without key stands between the row of 15 March and the row of 4 March. It compares
  equal to both, so the list counts as sorted already and is returned in its input order:
  the row of 15 March precedes the row of 4 March, and the output is not ascending by
  date.
\<close>

theorem processSpecialSatsangList_missing_key_counterexample:
  "map ymdForSort (processSpecialSatsangList refPlatform missingKeyExample)
     = [Some ''2024-03-15'', None, Some ''2024-03-04'']
   \<and> map (\<lambda>e. map_of (headerFields e) ''centre'')
        (processSpecialSatsangList refPlatform missingKeyExample)
     = [Some ''A'', Some ''B'', Some ''C'']
   \<and> compareEvents refPlatform (eventObjectOf (missingKeyExample ! 1))
        (eventObjectOf (missingKeyExample ! 0)) = 0
   \<and> compareEvents refPlatform (eventObjectOf (missingKeyExample ! 2))
        (eventObjectOf (missingKeyExample ! 1)) = 0
   \<and> localeCompare refPlatform ''2024-03-15'' ''2024-03-04'' = 1"
  by code_simp

text \<open>
  No implementation of \<^verbatim>\<open>sort\<close> could meet the claim on these three rows: an
  order that keeps the row without key in its place relative to each of the other two
  has the row of 15 March before the row of 4 March.
\<close>

lemma missing_key_order:
  assumes perm: "mset ys = mset (map eventObjectOf missingKeyExample)"
      and first: "filter (\<lambda>e. e = eventObjectOf (missingKeyExample ! 0)
                              \<or> e = eventObjectOf (missingKeyExample ! 1)) ys
                  = [eventObjectOf (missingKeyExample ! 0), eventObjectOf (missingKeyExample ! 1)]"
      and second: "filter (\<lambda>e. e = eventObjectOf (missingKeyExample ! 1)
                               \<or> e = eventObjectOf (missingKeyExample ! 2)) ys
                   = [eventObjectOf (missingKeyExample ! 1), eventObjectOf (missingKeyExample ! 2)]"
  shows "map ymdForSort (filter (\<lambda>e. truthyStr (ymdForSort e)) ys)
         = [Some ''2024-03-15'', Some ''2024-03-04'']"
proof -
  let ?a = "eventObjectOf (missingKeyExample ! 0)"
  let ?b = "eventObjectOf (missingKeyExample ! 1)"
  let ?c = "eventObjectOf (missingKeyExample ! 2)"
  have m: "map eventObjectOf missingKeyExample = [?a, ?b, ?c]"
    by code_simp
  have d: "distinct [?a, ?b, ?c]"
    by code_simp
  have ka: "ymdForSort ?a = Some ''2024-03-15''" and kb: "ymdForSort ?b = None"
    and kc: "ymdForSort ?c = Some ''2024-03-04''"
    by code_simp+
  have ac: "filter (\<lambda>e. e = ?a \<or> e = ?c) ys = [?a, ?c]"
    using d perm [unfolded m] first second by (rule order_between)
  have "set ys = {?a, ?b, ?c}"
    using perm [unfolded m] by (metis mset_eq_setD list.simps(15) empty_set)
  then have "filter (\<lambda>e. truthyStr (ymdForSort e)) ys = filter (\<lambda>e. e = ?a \<or> e = ?c) ys"
    using ka kb kc by (intro filter_cong) (auto simp: truthyStr_def)
  with ac ka kc show ?thesis
    by simp
qed

section \<open>The pivot aggregator\<close>

subsection \<open>First occurrences\<close>

lemma firstByKey_append:
  "firstByKey key seen (xs @ [x]) =
     firstByKey key seen xs @ (if key x \<in> set seen \<union> key ` set xs then [] else [x])"
  by (induction xs arbitrary: seen) auto

lemma firstByKey_keys:
  "key ` set (firstByKey key seen xs) = key ` set xs - set seen"
  by (induction xs arbitrary: seen) auto

lemma firstByKey_subset: "set (firstByKey key seen xs) \<subseteq> set xs"
  by (induction xs arbitrary: seen) auto

lemma firstByKey_distinct: "distinct (map key (firstByKey key seen xs))"
proof (induction xs arbitrary: seen)
  case Nil
  show ?case by simp
next
  case (Cons x xs)
  have "key x \<notin> key ` set (firstByKey key (key x # seen) xs)"
    by (simp add: firstByKey_keys)
  with Cons show ?case by simp
qed

lemma map_of_firstByKey:
  "map_of (map (\<lambda>x. (key x, f x)) (firstByKey key seen xs)) k =
     (if k \<in> set seen then None else map_option f (find (\<lambda>x. key x = k) xs))"
  by (induction xs arbitrary: seen) auto

subsection \<open>One row\<close>

lemma summarize_Nil: "summarize P [] = newCentre"
  by (simp add: summarize_def newCentre_def)

lemma dateData_summarize:
  "dateData (summarize P rows) = map (\<lambda>ix. (rowKey P ix, eventDetailsOf (snd ix))) rows"
  by (simp add: summarize_def)

lemma jsTruthyAt_summarize:
  "jsTruthyAt (dateData (summarize P rows)) k
     \<longleftrightarrow> k \<in> rowKey P ` set rows \<or> k \<in> set objectPrototypeKeys"
  by (auto simp: jsTruthyAt_def dateData_summarize image_iff)

lemma summarize_snoc:
  "summarize P (rows @ [ix]) =
     (let cd1 = (summarize P rows)
                  \<lparr>dateData := dateData (summarize P rows) @ [(rowKey P ix, eventDetailsOf (snd ix))]\<rparr>
      in if \<not> isNaN (numericSangat P (snd ix))
         then cd1\<lparr>totalSangatSum := jsAdd (totalSangatSum cd1) (numericSangat P (snd ix)),
                   sangatCount := sangatCount cd1 + 1\<rparr>
         else cd1)"
  by (simp add: summarize_def hasNumericSangat_def Let_def)

lemma addEvent_summarize:
  assumes "rowKey P ix = k" "snd ix = item"
  shows "addEvent P item k (summarize P (firstByKey (rowKey P) objectPrototypeKeys rows)) =
         summarize P (firstByKey (rowKey P) objectPrototypeKeys (rows @ [ix]))"
proof (cases "k \<in> set objectPrototypeKeys \<union> rowKey P ` set rows")
  case True
  then have "jsTruthyAt (dateData (summarize P (firstByKey (rowKey P) objectPrototypeKeys rows))) k"
    by (auto simp: jsTruthyAt_summarize firstByKey_keys)
  with True assms show ?thesis
    by (simp add: addEvent_def firstByKey_append)
next
  case False
  then have "\<not> jsTruthyAt (dateData (summarize P (firstByKey (rowKey P) objectPrototypeKeys rows))) k"
    by (auto simp: jsTruthyAt_summarize firstByKey_keys)
  with False assms show ?thesis
    by (simp add: addEvent_def firstByKey_append summarize_snoc Let_def)
qed

subsection \<open>The pass over the rows\<close>

lemma map_of_update:
  "map_of (map (\<lambda>(c', d). if c' = c then (c', f d) else (c', d)) xs) c'' =
     (if c'' = c then map_option f (map_of xs c) else map_of xs c'')"
  by (induction xs) auto

lemma keys_update:
  "map fst (map (\<lambda>(c', d). if c' = c then (c', f d) else (c', d)) xs) = map fst xs"
  by (induction xs) auto

lemma processItem_falsy:
  assumes "\<not> truthyStr (ymd (snd ix))"
  shows "processItem P st ix = Inr st"
  using assms
  by (cases st; cases ix) (auto simp: processItem_def truthyStr_def split: option.splits)

lemma processItem_truthy:
  assumes "truthyStr (ymd (snd ix))"
  shows "processItem P (pd, udi) ix =
     (let centre = rowCentre ix;
          key = rowKey P ix;
          udi1 = (if jsTruthyAt udi key then udi else udi @ [(key, rowIso ix)]);
          pd1 = (if jsTruthyAt pd centre then pd else pd @ [(centre, newCentre)])
      in case map_of pd1 centre of
           None \<Rightarrow> Inl TypeError
         | Some cd \<Rightarrow>
             Inr (map (\<lambda>(c, d). if c = centre then (c, addEvent P (snd ix) key d) else (c, d)) pd1,
                  udi1))"
  using assms
  by (cases ix)
     (auto simp: processItem_def truthyStr_def rowCentre_def rowKey_def rowIso_def orEmpty_def
                 Let_def split: option.splits)

lemma firstRows_snoc_same:
  "rowCentre ix = c \<Longrightarrow>
     firstRows P (rows @ [ix]) c =
       firstByKey (rowKey P) objectPrototypeKeys (filter (\<lambda>ix. rowCentre ix = c) rows @ [ix])"
  by (simp add: firstRows_def)

lemma firstRows_snoc_other:
  "rowCentre ix \<noteq> c \<Longrightarrow> firstRows P (rows @ [ix]) c = firstRows P rows c"
  by (simp add: firstRows_def)

lemma firstRows_absent:
  "c \<notin> rowCentre ` set rows \<Longrightarrow> firstRows P rows c = []"
proof -
  assume "c \<notin> rowCentre ` set rows"
  then have "filter (\<lambda>ix. rowCentre ix = c) rows = []"
    by (auto simp: filter_empty_conv)
  then show ?thesis by (simp add: firstRows_def)
qed

lemma uniqueDateInfo_step:
  assumes "udi = map (\<lambda>ix. (rowKey P ix, rowIso ix)) (firstByKey (rowKey P) objectPrototypeKeys rows)"
  shows "(if jsTruthyAt udi (rowKey P ix) then udi else udi @ [(rowKey P ix, rowIso ix)]) =
         map (\<lambda>ix. (rowKey P ix, rowIso ix))
           (firstByKey (rowKey P) objectPrototypeKeys (rows @ [ix]))"
proof -
  have "fst ` set udi = rowKey P ` set rows - set objectPrototypeKeys"
    unfolding assms using firstByKey_keys [of "rowKey P" objectPrototypeKeys rows]
    by (simp add: image_image)
  then have "jsTruthyAt udi (rowKey P ix)
               \<longleftrightarrow> rowKey P ix \<in> set objectPrototypeKeys \<union> rowKey P ` set rows"
    by (auto simp: jsTruthyAt_def)
  then show ?thesis
    by (simp add: assms firstByKey_append)
qed

lemma processItem_step:
  assumes inv: "represents P rows (pd, udi)"
      and truthy: "truthyStr (ymd (snd ix))"
      and ok: "rowCentre ix \<notin> set objectPrototypeKeys"
  shows "\<exists>st'. processItem P (pd, udi) ix = Inr st' \<and> represents P (rows @ [ix]) st'"
proof -
  let ?c = "rowCentre ix" and ?k = "rowKey P ix"
  let ?pd1 = "if jsTruthyAt pd ?c then pd else pd @ [(?c, newCentre)]"
  let ?udi1 = "if jsTruthyAt udi ?k then udi else udi @ [(?k, rowIso ix)]"
  let ?pd2 = "map (\<lambda>(c, d). if c = ?c then (c, addEvent P (snd ix) ?k d) else (c, d)) ?pd1"
  have dist: "distinct (map fst pd)"
    and keys: "set (map fst pd) = rowCentre ` set rows"
    and vals: "\<forall>c \<in> set (map fst pd). map_of pd c = Some (summarize P (firstRows P rows c))"
    and dates: "udi = map (\<lambda>ix. (rowKey P ix, rowIso ix))
                        (firstByKey (rowKey P) objectPrototypeKeys rows)"
    and clean: "\<forall>ix \<in> set rows. rowCentre ix \<notin> set objectPrototypeKeys"
    and tr: "\<forall>ix \<in> set rows. truthyStr (ymd (snd ix))"
    using inv unfolding represents_def fst_conv snd_conv by blast+
  have truthyAt: "jsTruthyAt pd ?c \<longleftrightarrow> ?c \<in> set (map fst pd)"
    using ok by (simp add: jsTruthyAt_def)
  have dist1: "distinct (map fst ?pd1)"
    using dist truthyAt by simp
  have keys1: "set (map fst ?pd1) = insert ?c (rowCentre ` set rows)"
    using keys truthyAt by auto
  have vals1: "\<forall>c \<in> set (map fst ?pd1). map_of ?pd1 c = Some (summarize P (firstRows P rows c))"
  proof
    fix c assume c: "c \<in> set (map fst ?pd1)"
    show "map_of ?pd1 c = Some (summarize P (firstRows P rows c))"
    proof (cases "c \<in> set (map fst pd)")
      case True
      with vals have "map_of pd c = Some (summarize P (firstRows P rows c))" by blast
      then show ?thesis by (simp add: map_add_Some_iff)
    next
      case False
      with c have cc: "c = ?c" and new: "\<not> jsTruthyAt pd ?c"
        by (auto split: if_splits)
      from False keys have "firstRows P rows c = []"
        by (simp add: firstRows_absent)
      moreover from False have "map_of pd c = None"
        by (simp add: map_of_eq_None_iff)
      ultimately show ?thesis
        using cc new by (simp add: summarize_Nil map_add_def)
    qed
  qed
  have here: "map_of ?pd1 ?c = Some (summarize P (firstRows P rows ?c))"
    using vals1 keys1 by blast
  have run: "processItem P (pd, udi) ix = Inr (?pd2, ?udi1)"
    using here by (simp add: processItem_truthy [OF truthy] Let_def)
  have "represents P (rows @ [ix]) (?pd2, ?udi1)"
    unfolding represents_def fst_conv snd_conv
  proof (intro conjI)
    show "distinct (map fst ?pd2)"
      using dist1 by (simp only: keys_update)
    show "set (map fst ?pd2) = rowCentre ` set (rows @ [ix])"
      using keys1 by (simp only: keys_update) auto
    show "\<forall>c \<in> set (map fst ?pd2). map_of ?pd2 c = Some (summarize P (firstRows P (rows @ [ix]) c))"
    proof
      fix c assume "c \<in> set (map fst ?pd2)"
      then have c: "c \<in> set (map fst ?pd1)"
        by (simp only: keys_update)
      show "map_of ?pd2 c = Some (summarize P (firstRows P (rows @ [ix]) c))"
      proof (cases "c = ?c")
        case True
        have "addEvent P (snd ix) ?k (summarize P (firstRows P rows ?c)) =
                summarize P (firstRows P (rows @ [ix]) ?c)"
          using addEvent_summarize [of P ix ?k "snd ix" "filter (\<lambda>ixa. rowCentre ixa = ?c) rows"]
          by (simp add: firstRows_def)
        with True here show ?thesis
          by (simp only: map_of_update) simp
      next
        case False
        then have "firstRows P (rows @ [ix]) c = firstRows P rows c"
          by (simp add: firstRows_snoc_other)
        with False vals1 c show ?thesis
          by (simp only: map_of_update) simp
      qed
    qed
    show "?udi1 = map (\<lambda>ix. (rowKey P ix, rowIso ix))
                    (firstByKey (rowKey P) objectPrototypeKeys (rows @ [ix]))"
      using dates by (rule uniqueDateInfo_step)
    show "\<forall>ix \<in> set (rows @ [ix]). rowCentre ix \<notin> set objectPrototypeKeys"
      using clean ok by simp
    show "\<forall>ix \<in> set (rows @ [ix]). truthyStr (ymd (snd ix))"
      using tr truthy by simp
  qed
  with run show ?thesis by blast
qed

lemma processItem_inherited:
  assumes inv: "represents P rows (pd, udi)"
      and truthy: "truthyStr (ymd (snd ix))"
      and bad: "rowCentre ix \<in> set objectPrototypeKeys"
  shows "processItem P (pd, udi) ix = Inl TypeError"
proof -
  from inv bad have "rowCentre ix \<notin> set (map fst pd)"
    unfolding represents_def by auto
  then have "map_of pd (rowCentre ix) = None"
    by (simp add: map_of_eq_None_iff)
  moreover have "jsTruthyAt pd (rowCentre ix)"
    using bad by (simp add: jsTruthyAt_def)
  ultimately show ?thesis
    by (simp add: processItem_truthy [OF truthy] Let_def)
qed

lemma represents_init: "represents P [] ([], [])"
  by (simp add: represents_def)

lemma forEachItem_represents:
  assumes "represents P rows st" "forEachItem P st xs = Inr st'"
  shows "represents P (rows @ filter (\<lambda>ix. truthyStr (ymd (snd ix))) xs) st'"
  using assms
proof (induction xs arbitrary: rows st)
  case Nil
  then show ?case by simp
next
  case (Cons ix xs)
  show ?case
  proof (cases "truthyStr (ymd (snd ix))")
    case False
    with Cons.prems have "forEachItem P st xs = Inr st'"
      by (simp add: processItem_falsy)
    with Cons.IH Cons.prems(1) False show ?thesis by simp
  next
    case True
    obtain pd udi where st: "st = (pd, udi)" by (cases st)
    show ?thesis
    proof (cases "rowCentre ix \<in> set objectPrototypeKeys")
      case bad: True
      with Cons.prems True st show ?thesis
        by (simp add: processItem_inherited)
    next
      case False
      from processItem_step [OF Cons.prems(1) [unfolded st] True False]
      obtain st1 where s1: "processItem P st ix = Inr st1"
        and r1: "represents P (rows @ [ix]) st1"
        unfolding st by blast
      with Cons.prems have "forEachItem P st1 xs = Inr st'"
        by simp
      from Cons.IH [OF r1 this] True show ?thesis by simp
    qed
  qed
qed

lemma forEachItem_pivot:
  assumes "forEachItem P ([], []) (indexed dataItems) = Inr st"
  shows "represents P (foldedRows dataItems) st"
  using forEachItem_represents [OF represents_init assms]
  by (simp add: foldedRows_def)

lemma forEachItem_total:
  assumes "represents P rows st"
      and "\<forall>ix \<in> set xs. truthyStr (ymd (snd ix)) \<longrightarrow> rowCentre ix \<notin> set objectPrototypeKeys"
  shows "\<exists>st'. forEachItem P st xs = Inr st'"
  using assms
proof (induction xs arbitrary: rows st)
  case Nil
  show ?case by simp
next
  case (Cons ix xs)
  show ?case
  proof (cases "truthyStr (ymd (snd ix))")
    case False
    with Cons show ?thesis
      by (simp add: processItem_falsy)
  next
    case True
    obtain pd udi where st: "st = (pd, udi)" by (cases st)
    from Cons.prems(2) True have "rowCentre ix \<notin> set objectPrototypeKeys" by simp
    from processItem_step [OF Cons.prems(1) [unfolded st] True this]
    obtain st1 where s1: "processItem P st ix = Inr st1"
      and r1: "represents P (rows @ [ix]) st1"
      unfolding st by blast
    from Cons.IH [OF r1] Cons.prems(2) s1 show ?thesis by simp
  qed
qed

lemma represents_lookup:
  assumes "represents P rows (pd, udi)" "map_of pd c = Some cd"
  shows "cd = summarize P (firstRows P rows c)"
proof -
  from assms(2) have "(c, cd) \<in> set pd"
    by (rule map_of_SomeD)
  then have "c \<in> set (map fst pd)"
    by force
  with assms(1) have "map_of pd c = Some (summarize P (firstRows P rows c))"
    unfolding represents_def fst_conv by blast
  with assms(2) show ?thesis by simp
qed


lemma represents_dates:
  assumes "represents P rows (pd, udi)"
  shows "udi = map (\<lambda>ix. (rowKey P ix, rowIso ix))
                 (firstByKey (rowKey P) objectPrototypeKeys rows)"
  using assms unfolding represents_def snd_conv by blast

subsection \<open>First write wins\<close>






subsection \<open>The sorted date keys\<close>

lemma set_objectKeys [simp]: "set (objectKeys obj) = fst ` set obj"
  by (auto simp: objectKeys_def Let_def)

lemma distinct_objectKeys:
  "distinct (map fst obj) \<Longrightarrow> distinct (objectKeys obj)"
  by (auto simp: objectKeys_def Let_def)

lemma sorted_wrt_strict:
  assumes "sorted_wrt R xs" "distinct xs"
  shows "sorted_wrt (\<lambda>a b. R a b \<and> a \<noteq> b) xs"
  using assms by (induction xs) auto

lemma isoOf_uniqueDateInfo:
  assumes "udi = map (\<lambda>ix. (rowKey P ix, rowIso ix))
                   (firstByKey (rowKey P) objectPrototypeKeys rows)"
      and "k \<notin> set objectPrototypeKeys"
  shows "isoOf udi k = isoOfKey P rows k"
  using assms(2)
  by (simp add: isoOf_def isoOfKey_def assms(1) map_of_firstByKey split: option.splits)

lemma find_Some_member: "find Q xs = Some x \<Longrightarrow> x \<in> set xs \<and> Q x"
  by (induction xs) (auto split: if_splits)

lemma isoOfKey_row:
  assumes "k \<in> rowKey P ` set rows"
  shows "\<exists>ix \<in> set rows. isoOfKey P rows k = rowIso ix \<and> rowKey P ix = k"
proof -
  from assms obtain ix where f: "find (\<lambda>ix. rowKey P ix = k) rows = Some ix"
    by (cases "find (\<lambda>ix. rowKey P ix = k) rows") (auto simp: find_None_iff)
  from find_Some_member [OF f] f show ?thesis
    by (auto simp: isoOfKey_def)
qed

lemma rowIso_isoDates:
  assumes "ix \<in> set (foldedRows dataItems)"
  shows "rowIso ix \<in> isoDates dataItems"
proof -
  from assms have "ix \<in> set (indexed dataItems)"
    by (simp add: foldedRows_def)
  then have "snd ix \<in> set dataItems"
    unfolding indexed_def by (metis in_set_zipE prod.collapse)
  then show ?thesis
    by (auto simp: rowIso_def isoDates_def)
qed

lemma sortDateKeys_ascending:
  assumes rep: "represents P (foldedRows dataItems) (pd, udi)"
      and total: "totalOn (localeCompare P) (isoDates dataItems)"
      and trans: "transitiveOn (localeCompare P) (isoDates dataItems)"
      and sep: "separatingOn (localeCompare P) (isoDates dataItems)"
  shows "sorted_wrt (\<lambda>a b. localeCompare P (isoOfKey P (foldedRows dataItems) a)
                               (isoOfKey P (foldedRows dataItems) b) < 0)
           (sortDateKeys P udi)"
    and "set (sortDateKeys P udi) = rowKey P ` set (foldedRows dataItems) - set objectPrototypeKeys"
    and "\<forall>k \<in> set (sortDateKeys P udi). datePivotKey P (isoOfKey P (foldedRows dataItems) k) = k"
proof -
  let ?rows = "foldedRows dataItems"
  let ?K = "rowKey P ` set ?rows - set objectPrototypeKeys"
  let ?iso = "isoOfKey P ?rows"
  let ?cmp = "\<lambda>a b. localeCompare P (isoOf udi a) (isoOf udi b)"
  have udi: "udi = map (\<lambda>ix. (rowKey P ix, rowIso ix))
                     (firstByKey (rowKey P) objectPrototypeKeys ?rows)"
    using rep by (rule represents_dates)
  have keys: "fst ` set udi = ?K"
    unfolding udi using firstByKey_keys [of "rowKey P" objectPrototypeKeys ?rows]
    by (simp add: image_image)
  have dist: "distinct (map fst udi)"
    unfolding udi using firstByKey_distinct [of "rowKey P" objectPrototypeKeys ?rows]
    by (simp add: comp_def)
  show set: "set (sortDateKeys P udi) = ?K"
    by (simp add: sortDateKeys_def keys)
  have iso: "\<And>k. k \<in> ?K \<Longrightarrow> isoOf udi k = ?iso k"
    using isoOf_uniqueDateInfo [OF udi] by simp
  have row: "\<And>k. k \<in> ?K \<Longrightarrow> ?iso k \<in> isoDates dataItems \<and> datePivotKey P (?iso k) = k"
  proof -
    fix k assume "k \<in> ?K"
    then obtain ix where "ix \<in> set ?rows" "?iso k = rowIso ix" "rowKey P ix = k"
      using isoOfKey_row [of k P ?rows] by auto
    then show "?iso k \<in> isoDates dataItems \<and> datePivotKey P (?iso k) = k"
      using rowIso_isoDates [of ix dataItems] by (simp add: rowKey_def)
  qed
  show "\<forall>k \<in> set (sortDateKeys P udi). datePivotKey P (?iso k) = k"
    using row set by simp
  have t1: "totalOn ?cmp ?K"
    unfolding totalOn_def
  proof (intro ballI)
    fix a b assume "a \<in> ?K" "b \<in> ?K"
    with row iso total show "?cmp a b \<le> 0 \<or> ?cmp b a \<le> 0"
      unfolding totalOn_def by metis
  qed
  have t2: "transitiveOn ?cmp ?K"
    unfolding transitiveOn_def
  proof (intro ballI impI)
    fix a b c assume "a \<in> ?K" "b \<in> ?K" "c \<in> ?K" and "?cmp a b \<le> 0 \<and> ?cmp b c \<le> 0"
    with row iso trans show "?cmp a c \<le> 0"
      unfolding transitiveOn_def by metis
  qed
  have "set (objectKeys udi) \<subseteq> ?K"
    by (simp add: keys)
  from sorted_jsSort [OF t1 t2 this]
  have "sorted_wrt (\<lambda>a b. ?cmp a b \<le> 0) (sortDateKeys P udi)"
    by (simp add: sortDateKeys_def)
  moreover have "distinct (sortDateKeys P udi)"
    using dist by (simp add: sortDateKeys_def distinct_objectKeys)
  ultimately have "sorted_wrt (\<lambda>a b. ?cmp a b \<le> 0 \<and> a \<noteq> b) (sortDateKeys P udi)"
    by (rule sorted_wrt_strict)
  then show "sorted_wrt (\<lambda>a b. localeCompare P (?iso a) (?iso b) < 0) (sortDateKeys P udi)"
  proof (rule sorted_wrt_mono_rel [rotated])
    fix a b assume a: "a \<in> set (sortDateKeys P udi)" and b: "b \<in> set (sortDateKeys P udi)"
      and ab: "?cmp a b \<le> 0 \<and> a \<noteq> b"
    from a b set have aK: "a \<in> ?K" and bK: "b \<in> ?K" by simp_all
    have "?iso a \<noteq> ?iso b"
      using row [OF aK] row [OF bK] ab by metis
    with sep row [OF aK] row [OF bK] have "localeCompare P (?iso a) (?iso b) \<noteq> 0"
      unfolding separatingOn_def by blast
    with ab iso [OF aK] iso [OF bK] show "localeCompare P (?iso a) (?iso b) < 0"
      by simp
  qed
qed

lemma processAndSortData_run:
  assumes "processAndSortData P dataItems selectedMonth isSundayData = Inr r"
  shows "(dataItems = [] \<and> \<not> isSundayData \<and> r = \<lparr>templateData = [], sortedDates = []\<rparr>)
         \<or> (\<exists>pd udi rows.
               forEachItem P ([], []) (indexed dataItems) = Inr (pd, udi)
               \<and> canonicalRows P pd (sortDateKeys P udi)
                    (if isSundayData then customCentreOrder else []) = Inr rows
               \<and> r = \<lparr>templateData =
                         rows @ concat (map (remainingRow P pd)
                           (remainingCentres P pd (if isSundayData then customCentreOrder else []))),
                       sortedDates = sortDateKeys P udi\<rparr>)"
  using assms
  by (auto simp: processAndSortData_def Let_def split: if_splits sum.splits prod.splits)

lemma processAndSortData_part000_run:
  assumes "processAndSortData_part000 P dataItems selectedMonth isSundayData allRelevantCenters = Inr r"
  shows "\<exists>pd udi rows.
           forEachItem P ([], []) (indexed dataItems) = Inr (pd, udi)
           \<and> canonicalRows P pd (sortDateKeys P udi)
                (case allRelevantCenters of None \<Rightarrow> [] | Some cs \<Rightarrow> cs) = Inr rows
           \<and> r = \<lparr>templateData =
                     rows @ concat (map (remainingRow_part000 P pd (sortDateKeys P udi))
                       (remainingCentres P pd
                          (case allRelevantCenters of None \<Rightarrow> [] | Some cs \<Rightarrow> cs))),
                   sortedDates = sortDateKeys P udi\<rparr>"
  using assms
  by (auto simp: processAndSortData_part000_def Let_def split: sum.splits prod.splits)

lemma foldedRows_Nil: "foldedRows [] = []"
  by (simp add: foldedRows_def indexed_def)

lemma sortedDates_run:
  assumes "processAndSortData P dataItems selectedMonth isSundayData = Inr r
           \<or> processAndSortData_part000 P dataItems selectedMonth isSundayData allRelevantCenters
               = Inr r"
  shows "(dataItems = [] \<and> sortedDates r = [])
         \<or> (\<exists>pd udi. represents P (foldedRows dataItems) (pd, udi)
                     \<and> sortedDates r = sortDateKeys P udi)"
  using assms
proof
  assume "processAndSortData P dataItems selectedMonth isSundayData = Inr r"
  from processAndSortData_run [OF this] show ?thesis
    using forEachItem_pivot by fastforce
next
  assume "processAndSortData_part000 P dataItems selectedMonth isSundayData allRelevantCenters
            = Inr r"
  from processAndSortData_part000_run [OF this] show ?thesis
    using forEachItem_pivot by fastforce
qed


text \<open>
  Claim C6, for both files. When \<^verbatim>\<open>localeCompare\<close> is a total, transitive order on the
  ISO dates of the bucket that tells different dates apart, the \<^verbatim>\<open>sortedDates\<close> of a
  result are strictly ascending by the underlying ISO date of each key, for all pairs.
  The underlying date of a key is that of the first row with the key; the key is the
  display form of that date, and the keys are those of the rows of the bucket. The
  display keys themselves are never compared.
\<close>

theorem sortedDates_ascending_by_iso:
  assumes run: "processAndSortData P dataItems selectedMonth isSundayData = Inr r
                \<or> processAndSortData_part000 P dataItems selectedMonth isSundayData
                     allRelevantCenters = Inr r"
      and total: "totalOn (localeCompare P) (isoDates dataItems)"
      and trans: "transitiveOn (localeCompare P) (isoDates dataItems)"
      and sep: "separatingOn (localeCompare P) (isoDates dataItems)"
  shows "sorted_wrt (\<lambda>a b. localeCompare P (isoOfKey P (foldedRows dataItems) a)
                               (isoOfKey P (foldedRows dataItems) b) < 0)
           (sortedDates r)
         \<and> set (sortedDates r) = rowKey P ` set (foldedRows dataItems) - set objectPrototypeKeys
         \<and> (\<forall>k \<in> set (sortedDates r). datePivotKey P (isoOfKey P (foldedRows dataItems) k) = k)"
proof -
  from sortedDates_run [OF run] show ?thesis
  proof
    assume "dataItems = [] \<and> sortedDates r = []"
    then show ?thesis by (simp add: foldedRows_Nil)
  next
    assume "\<exists>pd udi. represents P (foldedRows dataItems) (pd, udi)
                     \<and> sortedDates r = sortDateKeys P udi"
    then obtain pd udi where rep: "represents P (foldedRows dataItems) (pd, udi)"
      and s: "sortedDates r = sortDateKeys P udi" by blast
    from sortDateKeys_ascending [OF rep total trans sep] s show ?thesis by simp
  qed
qed


text \<open>
  The theorem on a bucket that spans a year boundary: 30-12-2023 comes before
  02-01-2024, although the display keys compare the other way round.
\<close>

lemma yearBoundaryExample_sortedDates:
  "(case processAndSortData_part000 refPlatform yearBoundaryExample ''2024-01'' True None of
      Inl e \<Rightarrow> None
    | Inr r \<Rightarrow> Some (sortedDates r)) = Some [''30-12-2023'', ''02-01-2024'']"
  by code_simp

theorem sortedDates_ascending_by_iso_witness:
  "(case processAndSortData_part000 refPlatform yearBoundaryExample ''2024-01'' True None of
      Inl e \<Rightarrow> None
    | Inr r \<Rightarrow> Some (sortedDates r)) = Some [''30-12-2023'', ''02-01-2024'']
   \<and> sorted_wrt (\<lambda>a b. localeCompare refPlatform
                          (isoOfKey refPlatform (foldedRows yearBoundaryExample) a)
                          (isoOfKey refPlatform (foldedRows yearBoundaryExample) b) < 0)
        [''30-12-2023'', ''02-01-2024'']
   \<and> map (isoOfKey refPlatform (foldedRows yearBoundaryExample)) [''30-12-2023'', ''02-01-2024'']
        = [''2023-12-30'', ''2024-01-02'']
   \<and> localeCompare refPlatform ''30-12-2023'' ''02-01-2024'' = 1"
proof -
  from yearBoundaryExample_sortedDates obtain r
    where run: "processAndSortData_part000 refPlatform yearBoundaryExample ''2024-01'' True None
                  = Inr r"
      and s: "sortedDates r = [''30-12-2023'', ''02-01-2024'']"
    by (auto split: sum.splits)
  have h1: "totalOn (localeCompare refPlatform) (isoDates yearBoundaryExample)"
    by code_simp
  have h2: "transitiveOn (localeCompare refPlatform) (isoDates yearBoundaryExample)"
    by code_simp
  have h3: "separatingOn (localeCompare refPlatform) (isoDates yearBoundaryExample)"
    by code_simp
  have i: "map (isoOfKey refPlatform (foldedRows yearBoundaryExample))
             [''30-12-2023'', ''02-01-2024''] = [''2023-12-30'', ''2024-01-02'']"
    by code_simp
  have l: "localeCompare refPlatform ''30-12-2023'' ''02-01-2024'' = 1"
    by code_simp
  from sortedDates_ascending_by_iso [OF disjI2 [OF run] h1 h2 h3]
  have "sorted_wrt (\<lambda>a b. localeCompare refPlatform
                          (isoOfKey refPlatform (foldedRows yearBoundaryExample) a)
                          (isoOfKey refPlatform (foldedRows yearBoundaryExample) b) < 0)
        [''30-12-2023'', ''02-01-2024'']"
    unfolding s by blast
  with yearBoundaryExample_sortedDates i l show ?thesis by blast
qed

subsection \<open>The fields of the output\<close>

lemma canonicalRows_member:
  assumes "canonicalRows P pd ks cs = Inr rows" "row \<in> set rows"
  shows "\<exists>c \<in> set cs. canonicalRow P pd ks c = Inr row"
  using assms
  by (induction cs arbitrary: rows) (auto split: sum.splits)


lemma canonicalRow_cells:
  assumes "canonicalRow P pd ks c = Inr row" "rowDateData row = Some dd"
  shows "dd = [] \<or> (\<exists>cd. map_of pd c = Some cd \<and> dd = dateData cd)"
  using assms by (auto simp: canonicalRow_def split: option.splits if_splits)

lemma remainingRow_member:
  assumes "row \<in> set (remainingRow P pd c)"
  shows "\<exists>cd. map_of pd c = Some cd \<and> rowDateData row = Some (dateData cd) \<and> centre row = c
              \<and> isMissingData row = False"
  using assms by (cases "map_of pd c") (auto simp: remainingRow_def)

lemma remainingRow_part000_member:
  assumes "row \<in> set (remainingRow_part000 P pd ks c)"
  shows "\<exists>cd. map_of pd c = Some cd \<and> rowDateData row = Some (dateData cd) \<and> centre row = c
              \<and> isMissingData row = (ks \<noteq> [] \<and> lacksSomeDate cd ks)"
  using assms by (cases "map_of pd c") (auto simp: remainingRow_part000_def)

lemma templateData_cells:
  assumes run: "processAndSortData P dataItems selectedMonth isSundayData = Inr r
                \<or> processAndSortData_part000 P dataItems selectedMonth isSundayData
                     allRelevantCenters = Inr r"
      and row: "row \<in> set (templateData r)" and dd: "rowDateData row = Some dd"
  shows "dd = [] \<or> (\<exists>pd udi c cd. forEachItem P ([], []) (indexed dataItems) = Inr (pd, udi)
                        \<and> map_of pd c = Some cd \<and> dd = dateData cd)"
  using run
proof
  assume "processAndSortData P dataItems selectedMonth isSundayData = Inr r"
  from processAndSortData_run [OF this] show ?thesis
  proof
    assume "dataItems = [] \<and> \<not> isSundayData \<and> r = \<lparr>templateData = [], sortedDates = []\<rparr>"
    with row show ?thesis by simp
  next
    assume "\<exists>pd udi rows.
               forEachItem P ([], []) (indexed dataItems) = Inr (pd, udi)
               \<and> canonicalRows P pd (sortDateKeys P udi)
                    (if isSundayData then customCentreOrder else []) = Inr rows
               \<and> r = \<lparr>templateData =
                         rows @ concat (map (remainingRow P pd)
                           (remainingCentres P pd (if isSundayData then customCentreOrder else []))),
                       sortedDates = sortDateKeys P udi\<rparr>"
    then obtain pd udi rows where f: "forEachItem P ([], []) (indexed dataItems) = Inr (pd, udi)"
      and c: "canonicalRows P pd (sortDateKeys P udi)
                (if isSundayData then customCentreOrder else []) = Inr rows"
      and r: "templateData r = rows @ concat (map (remainingRow P pd)
                (remainingCentres P pd (if isSundayData then customCentreOrder else [])))"
      by auto
    from row r have "row \<in> set rows \<or> (\<exists>c. row \<in> set (remainingRow P pd c))"
      by auto
    then show ?thesis
    proof
      assume "row \<in> set rows"
      from canonicalRows_member [OF c this] canonicalRow_cells dd f show ?thesis
        by blast
    next
      assume "\<exists>c. row \<in> set (remainingRow P pd c)"
      with remainingRow_member dd f show ?thesis
        by (metis option.inject)
    qed
  qed
next
  assume "processAndSortData_part000 P dataItems selectedMonth isSundayData allRelevantCenters
            = Inr r"
  from processAndSortData_part000_run [OF this]
  obtain pd udi rows where f: "forEachItem P ([], []) (indexed dataItems) = Inr (pd, udi)"
    and c: "canonicalRows P pd (sortDateKeys P udi)
              (case allRelevantCenters of None \<Rightarrow> [] | Some cs \<Rightarrow> cs) = Inr rows"
    and r: "templateData r = rows @ concat (map (remainingRow_part000 P pd (sortDateKeys P udi))
              (remainingCentres P pd (case allRelevantCenters of None \<Rightarrow> [] | Some cs \<Rightarrow> cs)))"
    by auto
  from row r have "row \<in> set rows
      \<or> (\<exists>c. row \<in> set (remainingRow_part000 P pd (sortDateKeys P udi) c))"
    by auto
  then show ?thesis
  proof
    assume "row \<in> set rows"
    from canonicalRows_member [OF c this] canonicalRow_cells dd f show ?thesis
      by blast
  next
    assume "\<exists>c. row \<in> set (remainingRow_part000 P pd (sortDateKeys P udi) c)"
    with remainingRow_part000_member dd f show ?thesis
      by (metis option.inject)
  qed
qed

lemma orEmpty_displayAt: "orEmpty (displayAt row i) = displayCellOrEmpty row i"
  by (simp add: orEmpty_def displayAt_def displayCellOrEmpty_def)

lemma eventDetailsOf_fields:
  "eventDetailsOf item =
     [(''totalSangat'', displayCellOrEmpty (displayRow item) 3),
      (''mode'', displayCellOrEmpty (displayRow item) 4),
      (''name'', displayCellOrEmpty (displayRow item) 5),
      (''arrival'', displayCellOrEmpty (displayRow item) 6),
      (''satsang'', displayCellOrEmpty (displayRow item) 7),
      (''saint'', displayCellOrEmpty (displayRow item) 8),
      (''book'', displayCellOrEmpty (displayRow item) 9),
      (''start'', displayCellOrEmpty (displayRow item) 10),
      (''end'', displayCellOrEmpty (displayRow item) 11)]"
  by (simp add: eventDetailsOf_def eventDetailColumns_def COL_defs orEmpty_displayAt)

lemma eventObjectOf_fields:
  "headerFields (eventObjectOf item) =
     [(''date'', displayCellOrEmpty (displayRow item) 1),
      (''day'', displayCellOrEmpty (displayRow item) 0),
      (''centre'', displayCellOrEmpty (displayRow item) 2),
      (''totalSangat'', displayCellOrEmpty (displayRow item) 3),
      (''mode'', displayCellOrEmpty (displayRow item) 4),
      (''name'', displayCellOrEmpty (displayRow item) 5),
      (''arrival'', displayCellOrEmpty (displayRow item) 6),
      (''satsang'', displayCellOrEmpty (displayRow item) 7),
      (''saint'', displayCellOrEmpty (displayRow item) 8),
      (''book'', displayCellOrEmpty (displayRow item) 9),
      (''start'', displayCellOrEmpty (displayRow item) 10),
      (''end'', displayCellOrEmpty (displayRow item) 11)]"
  by (simp add: eventObjectOf_def specialEventHeaders_def eventDetailColumns_def COL_defs
        orEmpty_displayAt)

lemma foldedRows_item:
  assumes "ix \<in> set (foldedRows dataItems)"
  shows "snd ix \<in> set dataItems"
proof -
  from assms have "ix \<in> set (indexed dataItems)"
    by (simp add: foldedRows_def)
  then show ?thesis
    unfolding indexed_def by (metis in_set_zipE prod.collapse)
qed

lemma pivot_cell_source:
  assumes run: "processAndSortData P dataItems selectedMonth isSundayData = Inr r
                \<or> processAndSortData_part000 P dataItems selectedMonth isSundayData
                     allRelevantCenters = Inr r"
      and row: "row \<in> set (templateData r)" and dd: "rowDateData row = Some dd"
      and cell: "(k, cell) \<in> set dd"
  shows "\<exists>item \<in> set dataItems. cell = eventDetailsOf item"
proof -
  from templateData_cells [OF run row dd] cell
  obtain pd udi c cd where f: "forEachItem P ([], []) (indexed dataItems) = Inr (pd, udi)"
    and cd: "map_of pd c = Some cd" and d: "dd = dateData cd"
    by auto
  have "cd = summarize P (firstRows P (foldedRows dataItems) c)"
    using forEachItem_pivot [OF f] cd by (rule represents_lookup)
  with cell d obtain ix where ix: "ix \<in> set (firstRows P (foldedRows dataItems) c)"
    and c: "cell = eventDetailsOf (snd ix)"
    by (auto simp: summarize_def)
  from ix have "ix \<in> set (foldedRows dataItems)"
    unfolding firstRows_def using firstByKey_subset by fastforce
  then have "snd ix \<in> set dataItems"
    by (rule foldedRows_item)
  with c show ?thesis by blast
qed

lemma special_event_source:
  assumes "e \<in> set (processSpecialSatsangList P specialItems)"
  shows "\<exists>item \<in> set specialItems. e = eventObjectOf item"
proof -
  from assms have "e \<in> set (map eventObjectOf specialItems)"
    by (simp add: processSpecialSatsangList_def split: if_splits)
  then show ?thesis by auto
qed

text \<open>
  Claim C10, as amended. Every cell of every row of a pivot result (of either file) is
  the list of the nine detail fields of one input row, each field being the display cell
  of its column, or the empty string when that cell is null, undefined or beyond the row;
  and the twelve header fields of every special-event object are those of one input row
  in the same way. A field is a string in every case. A special-event object has one
  more property, \<^verbatim>\<open>ymdForSort\<close>: it is the \<^verbatim>\<open>ymd\<close> of that row, not a display
  cell.
\<close>

theorem output_fields_display_or_empty:
  "((processAndSortData P dataItems selectedMonth isSundayData = Inr r
       \<or> processAndSortData_part000 P dataItems selectedMonth isSundayData allRelevantCenters
            = Inr r)
      \<and> row \<in> set (templateData r) \<and> rowDateData row = Some dd \<and> (k, cell) \<in> set dd \<longrightarrow>
      (\<exists>item \<in> set dataItems.
         cell =
           [(''totalSangat'', displayCellOrEmpty (displayRow item) 3),
            (''mode'', displayCellOrEmpty (displayRow item) 4),
            (''name'', displayCellOrEmpty (displayRow item) 5),
            (''arrival'', displayCellOrEmpty (displayRow item) 6),
            (''satsang'', displayCellOrEmpty (displayRow item) 7),
            (''saint'', displayCellOrEmpty (displayRow item) 8),
            (''book'', displayCellOrEmpty (displayRow item) 9),
            (''start'', displayCellOrEmpty (displayRow item) 10),
            (''end'', displayCellOrEmpty (displayRow item) 11)]))
   \<and> (e \<in> set (processSpecialSatsangList P specialItems) \<longrightarrow>
        (\<exists>item \<in> set specialItems.
           ymdForSort e = ymd item
           \<and> headerFields e =
               [(''date'', displayCellOrEmpty (displayRow item) 1),
                (''day'', displayCellOrEmpty (displayRow item) 0),
                (''centre'', displayCellOrEmpty (displayRow item) 2),
                (''totalSangat'', displayCellOrEmpty (displayRow item) 3),
                (''mode'', displayCellOrEmpty (displayRow item) 4),
                (''name'', displayCellOrEmpty (displayRow item) 5),
                (''arrival'', displayCellOrEmpty (displayRow item) 6),
                (''satsang'', displayCellOrEmpty (displayRow item) 7),
                (''saint'', displayCellOrEmpty (displayRow item) 8),
                (''book'', displayCellOrEmpty (displayRow item) 9),
                (''start'', displayCellOrEmpty (displayRow item) 10),
                (''end'', displayCellOrEmpty (displayRow item) 11)]))"
proof (intro conjI impI)
  assume a: "(processAndSortData P dataItems selectedMonth isSundayData = Inr r
       \<or> processAndSortData_part000 P dataItems selectedMonth isSundayData allRelevantCenters
            = Inr r)
      \<and> row \<in> set (templateData r) \<and> rowDateData row = Some dd \<and> (k, cell) \<in> set dd"
  then have "\<exists>item \<in> set dataItems. cell = eventDetailsOf item"
    using pivot_cell_source by blast
  then show "\<exists>item \<in> set dataItems.
         cell =
           [(''totalSangat'', displayCellOrEmpty (displayRow item) 3),
            (''mode'', displayCellOrEmpty (displayRow item) 4),
            (''name'', displayCellOrEmpty (displayRow item) 5),
            (''arrival'', displayCellOrEmpty (displayRow item) 6),
            (''satsang'', displayCellOrEmpty (displayRow item) 7),
            (''saint'', displayCellOrEmpty (displayRow item) 8),
            (''book'', displayCellOrEmpty (displayRow item) 9),
            (''start'', displayCellOrEmpty (displayRow item) 10),
            (''end'', displayCellOrEmpty (displayRow item) 11)]"
    by (simp only: eventDetailsOf_fields)
next
  assume "e \<in> set (processSpecialSatsangList P specialItems)"
  then obtain item where i: "item \<in> set specialItems" and e: "e = eventObjectOf item"
    using special_event_source by blast
  have "ymdForSort e = ymd item"
    using e by (simp add: eventObjectOf_def)
  with i e eventObjectOf_fields [of item]
  show "\<exists>item \<in> set specialItems.
           ymdForSort e = ymd item
           \<and> headerFields e =
               [(''date'', displayCellOrEmpty (displayRow item) 1),
                (''day'', displayCellOrEmpty (displayRow item) 0),
                (''centre'', displayCellOrEmpty (displayRow item) 2),
                (''totalSangat'', displayCellOrEmpty (displayRow item) 3),
                (''mode'', displayCellOrEmpty (displayRow item) 4),
                (''name'', displayCellOrEmpty (displayRow item) 5),
                (''arrival'', displayCellOrEmpty (displayRow item) 6),
                (''satsang'', displayCellOrEmpty (displayRow item) 7),
                (''saint'', displayCellOrEmpty (displayRow item) 8),
                (''book'', displayCellOrEmpty (displayRow item) 9),
                (''start'', displayCellOrEmpty (displayRow item) 10),
                (''end'', displayCellOrEmpty (displayRow item) 11)]"
    by (intro bexI [of _ item] conjI) simp_all
qed

text \<open>
  The theorem on a bucket of one row with eleven display cells, of which the arrival cell
  is null: the one pivot cell and the one event object carry the display values of the
  row, the empty string for the arrival and for the end time, which lies beyond the row,
  and \<^verbatim>\<open>3 Mar 2024\<close>, the displayed date, as the date of the event.
\<close>

lemma detailExample_pivot:
  "processAndSortData_part000 refPlatform detailExample ''2024-03'' True None
   = Inr \<lparr>templateData =
            [\<lparr>centre = ''A'', isBold = False,
              rowDateData =
                Some [(''03-03-2024'',
                       [(''totalSangat'', ''120''), (''mode'', ''Live''), (''name'', ''Ram''),
                        (''arrival'', []), (''satsang'', ''Evening''), (''saint'', ''Kabir''),
                        (''book'', ''Granth''), (''start'', ''18:00''), (''end'', [])])],
              averageSangat = ''120.0'', isMissingData = False\<rparr>],
          sortedDates = [''03-03-2024'']\<rparr>"
  by code_simp

lemma detailExample_list:
  "processSpecialSatsangList refPlatform detailExample
   = [\<lparr>ymdForSort = Some ''2024-03-03'',
       headerFields =
         [(''date'', ''3 Mar 2024''), (''day'', ''Sunday''), (''centre'', ''A''),
          (''totalSangat'', ''120''), (''mode'', ''Live''), (''name'', ''Ram''),
          (''arrival'', []), (''satsang'', ''Evening''), (''saint'', ''Kabir''),
          (''book'', ''Granth''), (''start'', ''18:00''), (''end'', [])]\<rparr>]"
  by code_simp

theorem output_fields_display_or_empty_witness:
  "(\<exists>item \<in> set detailExample.
      [(''totalSangat'', ''120''), (''mode'', ''Live''), (''name'', ''Ram''),
       (''arrival'', []), (''satsang'', ''Evening''), (''saint'', ''Kabir''),
       (''book'', ''Granth''), (''start'', ''18:00''), (''end'', [])]
      = [(''totalSangat'', displayCellOrEmpty (displayRow item) 3),
         (''mode'', displayCellOrEmpty (displayRow item) 4),
         (''name'', displayCellOrEmpty (displayRow item) 5),
         (''arrival'', displayCellOrEmpty (displayRow item) 6),
         (''satsang'', displayCellOrEmpty (displayRow item) 7),
         (''saint'', displayCellOrEmpty (displayRow item) 8),
         (''book'', displayCellOrEmpty (displayRow item) 9),
         (''start'', displayCellOrEmpty (displayRow item) 10),
         (''end'', displayCellOrEmpty (displayRow item) 11)])
   \<and> (\<exists>item \<in> set detailExample.
        Some ''2024-03-03'' = ymd item
        \<and> [(''date'', ''3 Mar 2024''), (''day'', ''Sunday''), (''centre'', ''A''),
            (''totalSangat'', ''120''), (''mode'', ''Live''), (''name'', ''Ram''),
            (''arrival'', []), (''satsang'', ''Evening''), (''saint'', ''Kabir''),
            (''book'', ''Granth''), (''start'', ''18:00''), (''end'', [])]
           = [(''date'', displayCellOrEmpty (displayRow item) 1),
              (''day'', displayCellOrEmpty (displayRow item) 0),
              (''centre'', displayCellOrEmpty (displayRow item) 2),
              (''totalSangat'', displayCellOrEmpty (displayRow item) 3),
              (''mode'', displayCellOrEmpty (displayRow item) 4),
              (''name'', displayCellOrEmpty (displayRow item) 5),
              (''arrival'', displayCellOrEmpty (displayRow item) 6),
              (''satsang'', displayCellOrEmpty (displayRow item) 7),
              (''saint'', displayCellOrEmpty (displayRow item) 8),
              (''book'', displayCellOrEmpty (displayRow item) 9),
              (''start'', displayCellOrEmpty (displayRow item) 10),
              (''end'', displayCellOrEmpty (displayRow item) 11)])
   \<and> displayRow (detailExample ! 0)
       = [Some ''Sunday'', Some ''3 Mar 2024'', Some ''A'', Some ''120'', Some ''Live'',
          Some ''Ram'', None, Some ''Evening'', Some ''Kabir'', Some ''Granth'', Some ''18:00'']"
proof -
  let ?cell = "[(''totalSangat'', ''120''), (''mode'', ''Live''), (''name'', ''Ram''),
                (''arrival'', []), (''satsang'', ''Evening''), (''saint'', ''Kabir''),
                (''book'', ''Granth''), (''start'', ''18:00''), (''end'', [])]"
  let ?row = "\<lparr>centre = ''A'', isBold = False,
               rowDateData = Some [(''03-03-2024'', ?cell)],
               averageSangat = ''120.0'', isMissingData = False\<rparr>"
  let ?r = "\<lparr>templateData = [?row], sortedDates = [''03-03-2024'']\<rparr>"
  let ?e = "\<lparr>ymdForSort = Some ''2024-03-03'',
             headerFields =
               [(''date'', ''3 Mar 2024''), (''day'', ''Sunday''), (''centre'', ''A''),
                (''totalSangat'', ''120''), (''mode'', ''Live''), (''name'', ''Ram''),
                (''arrival'', []), (''satsang'', ''Evening''), (''saint'', ''Kabir''),
                (''book'', ''Granth''), (''start'', ''18:00''), (''end'', [])]\<rparr>"
  have pre: "(processAndSortData refPlatform detailExample ''2024-03'' True = Inr ?r
       \<or> processAndSortData_part000 refPlatform detailExample ''2024-03'' True None = Inr ?r)
      \<and> ?row \<in> set (templateData ?r)
      \<and> rowDateData ?row = Some [(''03-03-2024'', ?cell)]
      \<and> (''03-03-2024'', ?cell) \<in> set [(''03-03-2024'', ?cell)]"
    using detailExample_pivot by simp
  have mem: "?e \<in> set (processSpecialSatsangList refPlatform detailExample)"
    using detailExample_list by simp
  note th = output_fields_display_or_empty
         [where P = refPlatform and dataItems = detailExample and r = ?r and row = ?row
            and dd = "[(''03-03-2024'', ?cell)]" and k = "''03-03-2024''" and cell = ?cell
            and selectedMonth = "''2024-03''" and isSundayData = True
            and allRelevantCenters = None and e = ?e and specialItems = detailExample]
  have d: "displayRow (detailExample ! 0)
       = [Some ''Sunday'', Some ''3 Mar 2024'', Some ''A'', Some ''120'', Some ''Live'',
          Some ''Ram'', None, Some ''Evening'', Some ''Kabir'', Some ''Granth'', Some ''18:00'']"
    by code_simp
  have 1: "\<exists>item \<in> set detailExample.
      ?cell
      = [(''totalSangat'', displayCellOrEmpty (displayRow item) 3),
         (''mode'', displayCellOrEmpty (displayRow item) 4),
         (''name'', displayCellOrEmpty (displayRow item) 5),
         (''arrival'', displayCellOrEmpty (displayRow item) 6),
         (''satsang'', displayCellOrEmpty (displayRow item) 7),
         (''saint'', displayCellOrEmpty (displayRow item) 8),
         (''book'', displayCellOrEmpty (displayRow item) 9),
         (''start'', displayCellOrEmpty (displayRow item) 10),
         (''end'', displayCellOrEmpty (displayRow item) 11)]"
    using th [THEN conjunct1, THEN mp, OF pre] .
  have 2: "\<exists>item \<in> set detailExample.
        ymdForSort ?e = ymd item
        \<and> headerFields ?e
           = [(''date'', displayCellOrEmpty (displayRow item) 1),
              (''day'', displayCellOrEmpty (displayRow item) 0),
              (''centre'', displayCellOrEmpty (displayRow item) 2),
              (''totalSangat'', displayCellOrEmpty (displayRow item) 3),
              (''mode'', displayCellOrEmpty (displayRow item) 4),
              (''name'', displayCellOrEmpty (displayRow item) 5),
              (''arrival'', displayCellOrEmpty (displayRow item) 6),
              (''satsang'', displayCellOrEmpty (displayRow item) 7),
              (''saint'', displayCellOrEmpty (displayRow item) 8),
              (''book'', displayCellOrEmpty (displayRow item) 9),
              (''start'', displayCellOrEmpty (displayRow item) 10),
              (''end'', displayCellOrEmpty (displayRow item) 11)]"
    using th [THEN conjunct2, THEN mp, OF mem] .
  from 2 have 3: "\<exists>item \<in> set detailExample.
        Some ''2024-03-03'' = ymd item
        \<and> [(''date'', ''3 Mar 2024''), (''day'', ''Sunday''), (''centre'', ''A''),
            (''totalSangat'', ''120''), (''mode'', ''Live''), (''name'', ''Ram''),
            (''arrival'', []), (''satsang'', ''Evening''), (''saint'', ''Kabir''),
            (''book'', ''Granth''), (''start'', ''18:00''), (''end'', [])]
           = [(''date'', displayCellOrEmpty (displayRow item) 1),
              (''day'', displayCellOrEmpty (displayRow item) 0),
              (''centre'', displayCellOrEmpty (displayRow item) 2),
              (''totalSangat'', displayCellOrEmpty (displayRow item) 3),
              (''mode'', displayCellOrEmpty (displayRow item) 4),
              (''name'', displayCellOrEmpty (displayRow item) 5),
              (''arrival'', displayCellOrEmpty (displayRow item) 6),
              (''satsang'', displayCellOrEmpty (displayRow item) 7),
              (''saint'', displayCellOrEmpty (displayRow item) 8),
              (''book'', displayCellOrEmpty (displayRow item) 9),
              (''start'', displayCellOrEmpty (displayRow item) 10),
              (''end'', displayCellOrEmpty (displayRow item) 11)]"
    by (simp only: eventObject.simps)
  from 1 3 d show ?thesis
    by (intro conjI)
qed

text \<open>
  The claim as stated fails for the property \<^verbatim>\<open>ymdForSort\<close> of a special-event
  object. The row below passes the first pass of \<^verbatim>\<open>Code.js\<close>; its date cell holds
  a date value that the sheet displays as \<^verbatim>\<open>3 Mar 2024\<close>. The event object built
  from it carries \<^verbatim>\<open>ymdForSort = "2024-03-03"\<close>, the normalized date, which is
  neither a display cell of the row nor the empty string.
\<close>

theorem output_fields_sort_key_counterexample:
  "validDataItems refPlatform [detailSheetRow] = detailExample
   \<and> map ymdForSort (processSpecialSatsangList refPlatform detailExample)
       = [Some ''2024-03-03'']
   \<and> map (displayCellOrEmpty (snd detailSheetRow)) [0 ..< 12]
       = [''Sunday'', ''3 Mar 2024'', ''A'', ''120'', ''Live'', ''Ram'', [],
          ''Evening'', ''Kabir'', ''Granth'', ''18:00'', []]
   \<and> ''2024-03-03'' \<notin> set (map (displayCellOrEmpty (snd detailSheetRow)) [0 ..< 12])"
  by code_simp

subsection \<open>The appended locations\<close>











end
